theory Spec2Isabelle
  imports Main "HOL-Library.Char_ord" "HOL-Library.List_Lexorder"
begin

section \<open>Python values, exceptions and library functions\<close>

text \<open>
  The exceptions the modelled code can raise. A function that may raise returns
  \<open>error + 'a\<close>, with \<open>Inl\<close> carrying the exception.
\<close>

datatype error =
    FileNotFoundError | FileExistsError | IsADirectoryError | YAMLError
  | ValueError | TypeError | KeyError | IndexError | NameError
  | AssertionError | Exception | NotImplementedError | ZeroDivisionError | AttributeError
  | UnicodeDecodeError

text \<open>\<open>class phase(Enum)\<close> of misc/config.py.\<close>

datatype phase = TRAIN | VAL | TESTDEV | TRAINVAL

text \<open>
  The values that occur as a \<open>split\<close>, a \<open>db_phase\<close> or the \<open>set\<close> attribute of a
  db-info entry: \<open>None\<close>, a string, or a member of the enumeration. Python's \<open>==\<close> on them
  is structural: a string never equals an enumeration member, since \<open>phase\<close> is a plain
  \<open>Enum\<close>.
\<close>

datatype pyval = VNone | VStr string | VPhase phase

text \<open>A YAML or command-line scalar that \<open>int()\<close> is applied to.\<close>

datatype yscalar = SInt int | SStr string

text \<open>
  The key handed to \<open>get_raw_sample\<close>: a string, an integer, a boolean (an instance of
  \<open>int\<close> in Python), \<open>None\<close>, or any other object, named by its identity.
\<close>

datatype pykey = KStr string | KInt int | KBool bool | KNone | KObj nat

fun isinstance_str :: "pykey \<Rightarrow> bool" where
  "isinstance_str (KStr _) = True"
| "isinstance_str _ = False"

fun isinstance_int :: "pykey \<Rightarrow> bool" where
  "isinstance_int (KInt _) = True"
| "isinstance_int (KBool _) = True"
| "isinstance_int _ = False"

text \<open>The integer an \<open>int\<close> instance stands for when it indexes a list.\<close>

fun int_of_key :: "pykey \<Rightarrow> int" where
  "int_of_key (KInt i) = i"
| "int_of_key (KBool b) = (if b then 1 else 0)"
| "int_of_key _ = 0"

text \<open>\<open>xs[i]\<close>: a negative index counts from the end, an index out of range raises.\<close>

definition py_index :: "'a list \<Rightarrow> int \<Rightarrow> error + 'a" where
  "py_index xs i =
     (if 0 \<le> i \<and> i < int (length xs) then Inr (xs ! nat i)
      else if i < 0 \<and> - int (length xs) \<le> i then Inr (xs ! nat (int (length xs) + i))
      else Inl IndexError)"

text \<open>\<open>d[k]\<close> on a dictionary.\<close>

definition py_getitem :: "('k \<rightharpoonup> 'v) \<Rightarrow> 'k \<Rightarrow> error + 'v" where
  "py_getitem d k = (case d k of None \<Rightarrow> Inl KeyError | Some v \<Rightarrow> Inr v)"

text \<open>\<open>dict(pairs)\<close>: of two pairs with equal keys the later one wins.\<close>

definition py_dict :: "('k \<times> 'v) list \<Rightarrow> ('k \<rightharpoonup> 'v)" where
  "py_dict kvs = map_of (rev kvs)"

subsection \<open>\<open>os.path\<close> and \<open>int\<close> on strings\<close>

definition sep :: char where
  "sep = CHR ''/''"

text \<open>\<open>osp.join(a, b)\<close> (posixpath).\<close>

definition join :: "string \<Rightarrow> string \<Rightarrow> string" where
  "join a b =
     (if b \<noteq> [] \<and> hd b = sep then b
      else if a = [] \<or> last a = sep then a @ b
      else a @ [sep] @ b)"

text \<open>\<open>osp.basename(p)\<close>: what follows the last separator.\<close>

definition basename :: "string \<Rightarrow> string" where
  "basename p = rev (takeWhile (\<lambda>c. c \<noteq> sep) (rev p))"

definition dirpart :: "string \<Rightarrow> string" where
  "dirpart p = rev (dropWhile (\<lambda>c. c \<noteq> sep) (rev p))"

text \<open>
  \<open>osp.splitext(p)[0]\<close>: the path without its extension. The extension starts at the last
  dot of the file name, unless only dots precede it there.
\<close>

definition splitext_root :: "string \<Rightarrow> string" where
  "splitext_root p =
     (let f = basename p;
          ext = rev (takeWhile (\<lambda>c. c \<noteq> CHR ''.'') (rev f));
          stem = take (length f - length ext - 1) f
      in if CHR ''.'' \<in> set f \<and> list_ex (\<lambda>c. c \<noteq> CHR ''.'') stem
         then dirpart p @ stem else p)"

definition is_digit :: "char \<Rightarrow> bool" where
  "is_digit c = (c \<in> set ''0123456789'')"

definition is_space :: "char \<Rightarrow> bool" where
  "is_space c = (c \<in> set [CHR '' '', CHR 0x09, CHR 0x0A, CHR 0x0B, CHR 0x0C, CHR 0x0D])"

definition digit_val :: "char \<Rightarrow> int" where
  "digit_val c = int (of_char c) - 48"

fun no_double_underscore :: "string \<Rightarrow> bool" where
  "no_double_underscore (a # b # cs) =
     (\<not> (a = CHR ''_'' \<and> b = CHR ''_'') \<and> no_double_underscore (b # cs))"
| "no_double_underscore _ = True"

definition strip :: "string \<Rightarrow> string" where
  "strip s = rev (dropWhile is_space (rev (dropWhile is_space s)))"

text \<open>
  \<open>int(s)\<close> on an ASCII string: surrounding white space, an optional sign, then decimal
  digits, where single underscores may separate digits. Anything else raises ValueError.
\<close>

definition py_int :: "string \<Rightarrow> error + int" where
  "py_int s =
     (let t = strip s;
          neg = (t \<noteq> [] \<and> hd t = CHR ''-'');
          body = (if t \<noteq> [] \<and> (hd t = CHR ''-'' \<or> hd t = CHR ''+'') then tl t else t);
          ds = filter (\<lambda>c. c \<noteq> CHR ''_'') body
      in if body \<noteq> [] \<and> is_digit (hd body) \<and> is_digit (last body)
            \<and> list_all is_digit ds \<and> no_double_underscore body
         then (let v = foldl (\<lambda>a c. 10 * a + digit_val c) 0 ds
               in Inr (if neg then - v else v))
         else Inl ValueError)"

fun py_int_scalar :: "yscalar \<Rightarrow> error + int" where
  "py_int_scalar (SInt i) = Inr i"
| "py_int_scalar (SStr s) = py_int s"

text \<open>\<open>str(n)\<close> for an integer.\<close>

fun str_nat :: "nat \<Rightarrow> string" where
  "str_nat n =
     (if n < 10 then [char_of (48 + n)] else str_nat (n div 10) @ [char_of (48 + n mod 10)])"

definition py_str :: "int \<Rightarrow> string" where
  "py_str i = (if i < 0 then CHR ''-'' # str_nat (nat (- i)) else str_nat (nat i))"

text \<open>
  The frame number of an image file, as the loader computes it:
  \<open>int(osp.splitext(osp.basename(path))[0])\<close>.
\<close>

definition frame_number :: "string \<Rightarrow> error + int" where
  "frame_number path = py_int (splitext_root (basename path))"

section \<open>The data model of the DAVIS loader\<close>

text \<open>An entry of the \<open>sequences\<close> list of the db-info file.\<close>

record db_seq =
  ds_name :: string
  ds_year :: yscalar
  ds_set :: pyval

text \<open>
  A \<open>Sequence\<close> and an \<open>Annotation\<close> object, with the attributes the loader reads:
  the name, the sorted file list \<open>files\<close> and the frame count \<open>_numframes\<close>.
\<close>

record sequence =
  seq_name :: string
  seq_files :: "string list"
  seq_numframes :: nat

record annotation =
  ann_name :: string
  ann_single_object :: bool
  ann_files :: "string list"
  ann_numframes :: nat

text \<open>
  A clip object (\<open>SequenceClip_simple\<close>, \<open>SequenceClip\<close>, \<open>AnnotationClip_simple\<close>):
  the attributes of the sequence it was cut from and its \<open>starting_frame\<close>.
\<close>

record sequence_clip =
  sc_name :: string
  sc_files :: "string list"
  sc_numframes :: nat
  sc_starting_frame :: int

record annotation_clip =
  ac_name :: string
  ac_files :: "string list"
  ac_numframes :: nat
  ac_starting_frame :: int

text \<open>
  Modelled from the spec: the constructor \<open>SequenceClip_simple(seq, starting_frame)\<close> of
  dataloader/base.py, which is not among the sources. The clip carries the attributes of
  the sequence it is given, and the starting frame.
\<close>

definition SequenceClip_simple :: "sequence \<Rightarrow> int \<Rightarrow> sequence_clip" where
  "SequenceClip_simple seq starting_frame =
     \<lparr>sc_name = seq_name seq, sc_files = seq_files seq, sc_numframes = seq_numframes seq,
      sc_starting_frame = starting_frame\<rparr>"

text \<open>
  Modelled from the spec: the constructor \<open>AnnotationClip_simple(annot, starting_frame)\<close>
  of dataloader/base.py, which is not among the sources. The clip carries the attributes
  of the annotation it is given, and the starting frame.
\<close>

definition AnnotationClip_simple :: "annotation \<Rightarrow> int \<Rightarrow> annotation_clip" where
  "AnnotationClip_simple annot starting_frame =
     \<lparr>ac_name = ann_name annot, ac_files = ann_files annot, ac_numframes = ann_numframes annot,
      ac_starting_frame = starting_frame\<rparr>"

text \<open>
  What \<open>db_read_sequences\<close> returns: the list of the db-info file itself, or a
  \<open>filter\<close> object. A filter object is an iterator: it holds the predicates still to be
  applied (the innermost filter first) and the part of the list not yet visited. The
  predicates are the three lambdas of \<open>db_read_sequences\<close>.
\<close>

datatype pred = YearLE yscalar | SetTrainVal | SetEqIsdir pyval

datatype db_iter = PyList "db_seq list" | PyFilter "pred list" "db_seq list"

text \<open>
  A key of the dictionary \<open>_keys\<close> or \<open>_keys_clips\<close>: a string, or a \<open>Sequence\<close>
  object, which is equal to no string. Python tells two \<open>Sequence\<close> objects apart even
  when their attributes agree; the model does not, which no modelled method can observe,
  since they look keys up by string only.
\<close>

datatype dictkey = DStr string | DSeq sequence

text \<open>
  The fields of a \<open>DAVISLoader\<close>. The transforms, \<open>inputRes\<close>, \<open>video_mode\<close>, \<open>ela\<close>
  and the colour palette are opaque values that no modelled method reads; of the
  augmentation transform the model keeps whether there is one and whether it is lazy.
\<close>

record DAVISLoader =
  l_year :: yscalar
  l_phase :: pyval
  l_single_object :: bool
  l_length_clip :: int
  l_max_seq_len :: int
  l_dataset :: string
  l_flip :: bool
  l_use_prev_mask :: bool
  l_augmentation_lazy :: "bool option"
  l_db_sequences :: db_iter
  sequences :: "sequence list"
  annotations :: "annotation list"
  sequence_clips :: "sequence_clip list"
  annotation_clips :: "annotation_clip list"
  l_keys :: "dictkey \<rightharpoonup> nat"
  l_keys_clips :: "dictkey \<rightharpoonup> nat"

record raw_sample =
  images :: sequence
  annotations' :: annotation

record raw_sample_clip =
  clip_images :: sequence_clip
  clip_annotations :: annotation_clip

section \<open>\<open>get_raw_sample\<close> and \<open>get_raw_sample_clip\<close>\<close>

text \<open>
  Both methods are functions of the key and the loader, and return the result (or the
  exception) together with the loader as they leave it. The name \<open>InputError\<close> of the
  last branch is bound nowhere in the module, so evaluating it raises NameError.
\<close>

definition sample_sid :: "(dictkey \<rightharpoonup> nat) \<Rightarrow> pykey \<Rightarrow> error + int" where
  "sample_sid d key =
     (if isinstance_str key then
        (case key of KStr s \<Rightarrow> map_sum id int (py_getitem d (DStr s)) | _ \<Rightarrow> Inl TypeError)
      else if isinstance_int key then Inr (int_of_key key)
      else Inl NameError)"

definition get_raw_sample :: "pykey \<Rightarrow> DAVISLoader \<Rightarrow> (error + raw_sample) \<times> DAVISLoader" where
  "get_raw_sample key self =
     (case sample_sid (l_keys self) key of
        Inl e \<Rightarrow> (Inl e, self)
      | Inr sid \<Rightarrow>
          (case py_index (sequences self) sid of
             Inl e \<Rightarrow> (Inl e, self)
           | Inr im \<Rightarrow>
               (case py_index (annotations self) sid of
                  Inl e \<Rightarrow> (Inl e, self)
                | Inr an \<Rightarrow> (Inr \<lparr>images = im, annotations' = an\<rparr>, self))))"

definition get_raw_sample_clip ::
  "pykey \<Rightarrow> DAVISLoader \<Rightarrow> (error + raw_sample_clip) \<times> DAVISLoader" where
  "get_raw_sample_clip key self =
     (case sample_sid (l_keys_clips self) key of
        Inl e \<Rightarrow> (Inl e, self)
      | Inr sid \<Rightarrow>
          (case py_index (sequence_clips self) sid of
             Inl e \<Rightarrow> (Inl e, self)
           | Inr im \<Rightarrow>
               (case py_index (annotation_clips self) sid of
                  Inl e \<Rightarrow> (Inl e, self)
                | Inr an \<Rightarrow> (Inr \<lparr>clip_images = im, clip_annotations = an\<rparr>, self))))"

section \<open>misc/config.py\<close>

text \<open>The global configuration object \<open>cfg\<close> (\<open>__C\<close>) and its sub-dictionary \<open>PATH\<close>.\<close>

record cfg_path =
  PATH_ROOT :: string
  PATH_DATA :: string
  PATH_ORIGINAL :: string
  PATH_SEQUENCES2 :: string
  PATH_SEQUENCES :: string
  PATH_FLOW :: string
  PATH_ANNOTATIONS :: string
  PATH_PALETTE :: string

record config =
  N_JOBS :: nat
  PATH :: cfg_path
  RESOLUTION :: string
  YEAR :: string
  PHASE :: phase
  MULTIOBJECT :: bool
  FILES_DB_INFO :: string
  EVAL_METRICS :: "string list"
  EVAL_STATISTICS :: "string list"
  SEQUENCES :: "(string \<times> db_seq) list"
  palette :: "nat list list"

text \<open>
  What the code reads from outside itself: the global \<open>cfg\<close>, which it also writes, and
  the file system, through \<open>osp.isdir\<close>, \<open>glob.glob\<close> and the YAML file of the dataset
  properties (\<open>fs_db_info path\<close> is the \<open>sequences\<close> entry of the file at \<open>path\<close>, or
  the exception that opening or loading it raises).

  The objects of dataloader/base.py list the image files of a directory:
  \<open>fs_collection lmdb pattern\<close> is the sorted file list such an object holds for a path
  pattern, read from the LMDB environment \<open>lmdb\<close> when there is one.
\<close>

record world =
  cfg :: config
  fs_isdir :: "string \<Rightarrow> bool"
  fs_glob :: "string \<Rightarrow> string list"
  fs_db_info :: "string \<Rightarrow> error + db_seq list"
  fs_collection :: "string option \<Rightarrow> string \<Rightarrow> string list"

definition db_read_info :: "world \<Rightarrow> error + db_seq list" where
  "db_read_info w = fs_db_info w (FILES_DB_INFO (cfg w))"

text \<open>\<open>filter(p, sequences)\<close>: a new filter object around a list or around a filter.\<close>

fun add_filter :: "pred \<Rightarrow> db_iter \<Rightarrow> db_iter" where
  "add_filter p (PyList xs) = PyFilter [p] xs"
| "add_filter p (PyFilter ps xs) = PyFilter (ps @ [p]) xs"

definition db_read_sequences :: "yscalar option \<Rightarrow> pyval \<Rightarrow> world \<Rightarrow> error + db_iter" where
  "db_read_sequences year db_phase w =
     (case db_read_info w of
        Inl e \<Rightarrow> Inl e
      | Inr info \<Rightarrow>
          (let by_year = (case year of
                            None \<Rightarrow> PyList info
                          | Some y \<Rightarrow> add_filter (YearLE y) (PyList info))
           in Inr (if db_phase \<noteq> VNone then
                     (if db_phase = VPhase TRAINVAL then add_filter SetTrainVal by_year
                      else add_filter (SetEqIsdir db_phase) by_year)
                   else by_year)))"

text \<open>
  The three lambdas. They run when the filter object is iterated, not when it is made:
  \<open>cfg.PATH.SEQUENCES\<close> and the directory are read in the world of that moment.
\<close>

fun holds :: "world \<Rightarrow> pred \<Rightarrow> db_seq \<Rightarrow> error + bool" where
  "holds w (YearLE y) s =
     (case py_int_scalar (ds_year s) of
        Inl e \<Rightarrow> Inl e
      | Inr a \<Rightarrow> (case py_int_scalar y of Inl e \<Rightarrow> Inl e | Inr b \<Rightarrow> Inr (a \<le> b)))"
| "holds w SetTrainVal s = Inr (ds_set s = VPhase VAL \<or> ds_set s = VPhase TRAIN)"
| "holds w (SetEqIsdir p) s =
     Inr (ds_set s = p \<and> fs_isdir w (join (PATH_SEQUENCES (PATH (cfg w))) (ds_name s)))"

text \<open>An element passes a chain of filters when each predicate, innermost first, holds.\<close>

fun holds_all :: "world \<Rightarrow> pred list \<Rightarrow> db_seq \<Rightarrow> error + bool" where
  "holds_all w [] s = Inr True"
| "holds_all w (p # ps) s =
     (case holds w p s of
        Inl e \<Rightarrow> Inl e
      | Inr b \<Rightarrow> if b then holds_all w ps s else Inr False)"

text \<open>
  \<open>next(it)\<close> on a filter object: the first element that passes and the part of the list
  behind it, \<open>None\<close> when no element is left (StopIteration), or the exception of a
  predicate.
\<close>

fun next_match :: "world \<Rightarrow> pred list \<Rightarrow> db_seq list \<Rightarrow> error + (db_seq \<times> db_seq list) option" where
  "next_match w ps [] = Inr None"
| "next_match w ps (s # xs) =
     (case holds_all w ps s of
        Inl e \<Rightarrow> Inl e
      | Inr b \<Rightarrow> if b then Inr (Some (s, xs)) else next_match w ps xs)"

text \<open>
  Iterating a filter object to its end: the elements it yields, and the exception that
  ended the iteration, if one did.
\<close>

fun drain :: "world \<Rightarrow> pred list \<Rightarrow> db_seq list \<Rightarrow> db_seq list \<times> error option" where
  "drain w ps [] = ([], None)"
| "drain w ps (s # xs) =
     (case holds_all w ps s of
        Inl e \<Rightarrow> ([], Some e)
      | Inr b \<Rightarrow> (let (ys, e) = drain w ps xs in (if b then s # ys else ys, e)))"

fun iterate :: "world \<Rightarrow> db_iter \<Rightarrow> db_seq list \<times> error option" where
  "iterate w (PyList xs) = (xs, None)"
| "iterate w (PyFilter ps xs) = drain w ps xs"

text \<open>The condition \<open>int(s.year) <= int(year)\<close>, where both conversions succeed.\<close>

definition year_le :: "db_seq \<Rightarrow> yscalar \<Rightarrow> bool" where
  "year_le s y =
     (case (py_int_scalar (ds_year s), py_int_scalar y) of
        (Inr a, Inr b) \<Rightarrow> a \<le> b
      | _ \<Rightarrow> False)"

definition is_int :: "yscalar \<Rightarrow> bool" where
  "is_int y = (case py_int_scalar y of Inr _ \<Rightarrow> True | Inl _ \<Rightarrow> False)"

section \<open>\<open>DAVISLoader.__init__\<close>\<close>

text \<open>The fields of \<open>args\<close> that \<open>__init__\<close> stores or tests.\<close>

record args =
  a_year :: yscalar
  a_single_object :: bool
  a_length_clip :: int
  a_gt_maxseqlen :: int
  a_dataset :: string

definition VAL_SEQUENCES :: string where
  "VAL_SEQUENCES = ''/vulcan/scratch/pengzhou/model/Deep-Video-Inpainting/results/vi_davis/val''"

definition TRAIN_SEQUENCES :: string where
  "TRAIN_SEQUENCES = ''/vulcan/scratch/pengzhou/model/opn-demo/vi_davis/train''"

text \<open>The first statement of \<open>__init__\<close>: the assignment to \<open>cfg.PATH.SEQUENCES\<close>.\<close>

definition set_sequences_path :: "pyval \<Rightarrow> world \<Rightarrow> world" where
  "set_sequences_path split w =
     w\<lparr>cfg := (cfg w)\<lparr>PATH := (PATH (cfg w))
        \<lparr>PATH_SEQUENCES := (if split = VStr ''val'' then VAL_SEQUENCES else TRAIN_SEQUENCES)\<rparr>\<rparr>\<rparr>"

text \<open>
  Modelled from the spec: the constructor \<open>Sequence(split, name, regex, lmdb_env)\<close> of
  dataloader/base.py, which is not among the sources. The object keeps the sequence name
  it is made for and the file list of its directory under \<open>cfg.PATH.SEQUENCES\<close>; its
  frame count is the length of that list.
\<close>

definition Sequence :: "world \<Rightarrow> string \<Rightarrow> string \<Rightarrow> string option \<Rightarrow> sequence" where
  "Sequence w nm regex lmdb_env =
     (let fl = fs_collection w lmdb_env (join (join (PATH_SEQUENCES (PATH (cfg w))) nm) regex)
      in \<lparr>seq_name = nm, seq_files = fl, seq_numframes = length fl\<rparr>)"

text \<open>
  Modelled from the spec: the constructor \<open>Annotation(split, name, single_object, lmdb_env)\<close>
  of dataloader/base.py, which is not among the sources; as \<open>Sequence\<close>, for the masks
  under \<open>cfg.PATH.ANNOTATIONS\<close>.
\<close>

definition Annotation :: "world \<Rightarrow> string \<Rightarrow> bool \<Rightarrow> string option \<Rightarrow> annotation" where
  "Annotation w nm single_object lmdb_env =
     (let fl = fs_collection w lmdb_env (join (join (PATH_ANNOTATIONS (PATH (cfg w))) nm) ''*.png'')
      in \<lparr>ann_name = nm, ann_single_object = single_object, ann_files = fl,
          ann_numframes = length fl\<rparr>)"

text \<open>
  Modelled from the spec: the constructor
  \<open>SequenceClip(split, name, starting_frame, regex, lmdb_env)\<close> of dataloader/base.py, which is
  not among the sources; as \<open>Sequence\<close>, with the starting frame it is given.
\<close>

definition SequenceClip :: "world \<Rightarrow> string \<Rightarrow> int \<Rightarrow> string \<Rightarrow> string option \<Rightarrow> sequence_clip" where
  "SequenceClip w nm starting_frame regex lmdb_env =
     (let fl = fs_collection w lmdb_env (join (join (PATH_SEQUENCES (PATH (cfg w))) nm) regex)
      in \<lparr>sc_name = nm, sc_files = fl, sc_numframes = length fl,
          sc_starting_frame = starting_frame\<rparr>)"

text \<open>
  \<open>int(num_frames / length_clip)\<close>: the quotient cut towards zero. The frame count is
  small enough for the floating-point quotient to be cut to the exact one.
\<close>

definition num_clips_of :: "nat \<Rightarrow> int \<Rightarrow> error + int" where
  "num_clips_of num_frames L =
     (if L = 0 then Inl ZeroDivisionError
      else if 0 < L then Inr (int num_frames div L)
      else Inr (- (int num_frames div (- L))))"

text \<open>
  The inner loop \<open>for idx in range(num_clips - 1)\<close>: \<open>k\<close> rounds are left and
  \<open>starting_frame_idx\<close> is \<open>idx\<close>. Each round makes one clip with \<open>mk\<close>.
\<close>

fun more_clips :: "(int \<Rightarrow> 'c) \<Rightarrow> string list \<Rightarrow> int \<Rightarrow> nat \<Rightarrow> int \<Rightarrow> error + 'c list" where
  "more_clips mk imgs L 0 idx = Inr []"
| "more_clips mk imgs L (Suc k) idx =
     (case py_index imgs (idx + L) of
        Inl e \<Rightarrow> Inl e
      | Inr f \<Rightarrow>
          (case frame_number f of
             Inl e \<Rightarrow> Inl e
           | Inr starting_frame \<Rightarrow>
               (case more_clips mk imgs L k (idx + L) of
                  Inl e \<Rightarrow> Inl e
                | Inr cs \<Rightarrow> Inr (mk starting_frame # cs))))"

text \<open>
  The clips one sequence contributes when \<open>use_prev_mask\<close> is false, and the clips one
  annotation contributes: the clip of the first file, then \<open>num_clips - 1\<close> more.
\<close>

definition clips_of :: "(int \<Rightarrow> 'c) \<Rightarrow> string list \<Rightarrow> nat \<Rightarrow> int \<Rightarrow> error + 'c list" where
  "clips_of mk imgs num_frames L =
     (case py_index imgs 0 of
        Inl e \<Rightarrow> Inl e
      | Inr f \<Rightarrow>
          (case frame_number f of
             Inl e \<Rightarrow> Inl e
           | Inr starting_frame \<Rightarrow>
               (case num_clips_of num_frames L of
                  Inl e \<Rightarrow> Inl e
                | Inr num_clips \<Rightarrow>
                    (case more_clips mk imgs L (nat (num_clips - 1)) 0 of
                       Inl e \<Rightarrow> Inl e
                     | Inr cs \<Rightarrow> Inr (mk starting_frame # cs)))))"

text \<open>The body of the loop over \<open>zip(self.sequences, self._db_sequences)\<close>.\<close>

definition sequence_clips_of ::
  "world \<Rightarrow> bool \<Rightarrow> int \<Rightarrow> string option \<Rightarrow> sequence \<Rightarrow> db_seq \<Rightarrow> error + sequence_clip list" where
  "sequence_clips_of w prev_mask L lmdb_env_seq seq s =
     (if \<not> prev_mask then
        clips_of (SequenceClip_simple seq) (seq_files seq) (seq_numframes seq) L
      else
        (let annot_seq_dir = join (PATH_ANNOTATIONS (PATH (cfg w))) (ds_name s);
             annots = sort (fs_glob w (join annot_seq_dir ''*.png''))
         in case py_index annots 0 of
              Inl e \<Rightarrow> Inl e
            | Inr f \<Rightarrow>
                (case frame_number f of
                   Inl e \<Rightarrow> Inl e
                 | Inr starting_frame \<Rightarrow>
                     Inr [SequenceClip w (ds_name s) starting_frame ''*.png'' lmdb_env_seq])))"

definition annotation_clips_of :: "int \<Rightarrow> annotation \<Rightarrow> db_seq \<Rightarrow> error + annotation_clip list" where
  "annotation_clips_of L annot s =
     clips_of (AnnotationClip_simple annot) (ann_files annot) (ann_numframes annot) L"

text \<open>
  A \<open>for\<close> loop over \<open>zip(xs, it)\<close>, where \<open>it\<close> is a filter object with predicates \<open>ps\<close>
  and unvisited part \<open>rest\<close>. \<open>zip\<close> asks \<open>xs\<close> first and stops without touching \<open>it\<close>
  when \<open>xs\<close> is at its end. The result is what the bodies appended and the part of the
  list the filter object has not visited.
\<close>

fun zip_loop ::
  "world \<Rightarrow> ('a \<Rightarrow> db_seq \<Rightarrow> error + 'c list) \<Rightarrow> 'a list \<Rightarrow> pred list \<Rightarrow> db_seq list
     \<Rightarrow> error + ('c list \<times> db_seq list)" where
  "zip_loop w body [] ps rest = Inr ([], rest)"
| "zip_loop w body (x # xs) ps rest =
     (case next_match w ps rest of
        Inl e \<Rightarrow> Inl e
      | Inr None \<Rightarrow> Inr ([], [])
      | Inr (Some (s, rest')) \<Rightarrow>
          (case body x s of
             Inl e \<Rightarrow> Inl e
           | Inr cs \<Rightarrow>
               (case zip_loop w body xs ps rest' of
                  Inl e \<Rightarrow> Inl e
                | Inr (cs', r) \<Rightarrow> Inr (cs @ cs', r))))"

text \<open>
  The same loop over whatever \<open>db_read_sequences\<close> returned: a list is iterated afresh
  and stays as it is, a filter object is left where the loop stopped.
\<close>

fun zip_iter ::
  "world \<Rightarrow> ('a \<Rightarrow> db_seq \<Rightarrow> error + 'c list) \<Rightarrow> 'a list \<Rightarrow> db_iter
     \<Rightarrow> error + ('c list \<times> db_iter)" where
  "zip_iter w body xs (PyList ys) =
     (case zip_loop w body xs [] ys of
        Inl e \<Rightarrow> Inl e
      | Inr (cs, r) \<Rightarrow> Inr (cs, PyList ys))"
| "zip_iter w body xs (PyFilter ps ys) =
     (case zip_loop w body xs ps ys of
        Inl e \<Rightarrow> Inl e
      | Inr (cs, r) \<Rightarrow> Inr (cs, PyFilter ps r))"

text \<open>A list comprehension over what \<open>db_read_sequences\<close> returned.\<close>

definition comprehension :: "world \<Rightarrow> (db_seq \<Rightarrow> 'a) \<Rightarrow> db_iter \<Rightarrow> error + 'a list" where
  "comprehension w f it =
     (case iterate w it of
        (ys, None) \<Rightarrow> Inr (map f ys)
      | (ys, Some e) \<Rightarrow> Inl e)"

definition lmdb_env_of :: "world \<Rightarrow> string \<Rightarrow> string option" where
  "lmdb_env_of w d =
     (if fs_isdir w (join (PATH_DATA (PATH (cfg w))) ''lmdb_seq'')
         \<and> fs_isdir w (join (PATH_DATA (PATH (cfg w))) ''lmdb_annot'')
      then Some (join (PATH_DATA (PATH (cfg w))) d) else None)"

text \<open>
  \<open>__init__\<close> after its first statement, in the world \<open>w\<close> that statement left. Every
  \<open>raise\<close>, failed \<open>assert\<close> and exception of a called function ends it with \<open>Inl\<close>.
\<close>

definition init_body :: "args \<Rightarrow> bool \<Rightarrow> pyval \<Rightarrow> bool \<Rightarrow> world \<Rightarrow> error + DAVISLoader" where
  "init_body ar augment split prev_mask w =
     (if \<not> (a_year ar = SStr ''2017'' \<or> a_year ar = SStr ''2016'') then Inl AssertionError
      else if a_single_object ar \<and> a_year ar \<noteq> SStr ''2016'' then Inl Exception
      else
       (case db_read_sequences (Some (a_year ar)) split w of Inl e \<Rightarrow> Inl e | Inr it1 \<Rightarrow>
        (let lmdb_env_seq = lmdb_env_of w ''lmdb_seq'';
             lmdb_env_annot = lmdb_env_of w ''lmdb_annot''
         in
        (case comprehension w (\<lambda>s. Sequence w (ds_name s) ''*.png'' lmdb_env_seq) it1 of
           Inl e \<Rightarrow> Inl e | Inr seqs \<Rightarrow>
        (case db_read_sequences (Some (a_year ar)) split w of Inl e \<Rightarrow> Inl e | Inr it2 \<Rightarrow>
        (case comprehension w
                (\<lambda>s. Annotation w (ds_name s) (a_single_object ar) lmdb_env_annot) it2 of
           Inl e \<Rightarrow> Inl e | Inr annots \<Rightarrow>
        (case db_read_sequences (Some (a_year ar)) split w of Inl e \<Rightarrow> Inl e | Inr it3 \<Rightarrow>
        (case zip_iter w (sequence_clips_of w prev_mask (a_length_clip ar) lmdb_env_seq) seqs it3 of
           Inl e \<Rightarrow> Inl e | Inr (sclips, it3') \<Rightarrow>
        (case db_read_sequences (Some (a_year ar)) split w of Inl e \<Rightarrow> Inl e | Inr it4 \<Rightarrow>
        (case zip_iter w (annotation_clips_of (a_length_clip ar)) annots it4 of
           Inl e \<Rightarrow> Inl e | Inr (aclips, it4') \<Rightarrow>
           Inr \<lparr>l_year = a_year ar, l_phase = split, l_single_object = a_single_object ar,
                l_length_clip = a_length_clip ar, l_max_seq_len = a_gt_maxseqlen ar,
                l_dataset = a_dataset ar, l_flip = augment, l_use_prev_mask = prev_mask,
                l_augmentation_lazy = (if augment then Some (a_length_clip ar \<noteq> 1) else None),
                l_db_sequences = it4',
                sequences = seqs, annotations = annots,
                sequence_clips = sclips, annotation_clips = aclips,
                l_keys = py_dict (zip (map DSeq seqs) [0..<length seqs]),
                l_keys_clips =
                  py_dict (zip (map (\<lambda>c. DStr (sc_name c @ py_str (sc_starting_frame c))) sclips)
                               [0..<length sclips])\<rparr>))))))))))"

text \<open>
  \<open>DAVISLoader(args, augment, split, use_prev_mask)\<close>: the loader or the exception, and
  the world it leaves. The assignment to \<open>cfg\<close> comes before everything that can raise.
\<close>

definition DAVISLoader_init ::
  "args \<Rightarrow> bool \<Rightarrow> pyval \<Rightarrow> bool \<Rightarrow> world \<Rightarrow> (error + DAVISLoader) \<times> world" where
  "DAVISLoader_init ar augment split prev_mask w =
     (let w' = set_sequences_path split w in (init_body ar augment split prev_mask w', w'))"

section \<open>The name methods of the loader\<close>

text \<open>\<open>sequence_id_to_name(sid)\<close>: a filter object cannot be subscripted.\<close>

definition sequence_id_to_name :: "DAVISLoader \<Rightarrow> int \<Rightarrow> error + string" where
  "sequence_id_to_name self sid =
     (case l_db_sequences self of
        PyFilter ps rest \<Rightarrow> Inl TypeError
      | PyList ys \<Rightarrow> map_sum id ds_name (py_index ys sid))"

text \<open>
  \<open>iternames()\<close>, run to its end in the world \<open>w\<close>: what it yields and the exception that
  ended it, if any.
\<close>

definition iternames :: "world \<Rightarrow> DAVISLoader \<Rightarrow> db_seq list \<times> error option" where
  "iternames w self = iterate w (l_db_sequences self)"

section \<open>A small dataset\<close>

text \<open>
  A db-info file with four sequences and a file system on which to run the loader:
  \<open>a\<close> and \<open>b\<close> are training sequences of four frames and four masks each, \<open>c\<close> is a
  validation sequence of two frames, and the training sequence \<open>d\<close> has a directory
  among the validation results only.
\<close>

definition ex_info :: "db_seq list" where
  "ex_info =
     [\<lparr>ds_name = ''a'', ds_year = SInt 2016, ds_set = VStr ''train''\<rparr>,
      \<lparr>ds_name = ''b'', ds_year = SInt 2017, ds_set = VStr ''train''\<rparr>,
      \<lparr>ds_name = ''c'', ds_year = SInt 2016, ds_set = VStr ''val''\<rparr>,
      \<lparr>ds_name = ''d'', ds_year = SInt 2017, ds_set = VStr ''train''\<rparr>]"

text \<open>The configuration as misc/config.py sets it up, with the project under \<open>/VIDNet\<close>.\<close>

definition ex_cfg :: config where
  "ex_cfg =
     \<lparr>N_JOBS = 32,
      PATH = \<lparr>PATH_ROOT = ''/VIDNet'', PATH_DATA = ''/db'',
              PATH_ORIGINAL = ''/db/JPEGImages/480p'',
              PATH_SEQUENCES2 = ''/#FIXME/model/Deep-Video-Inpainting/results/vi_davis'',
              PATH_SEQUENCES = ''/#FIXME/model/opn-demo/vi_davis'',
              PATH_FLOW = ''../../flownet2-pytorch/result/inference/run.epoch-0-flow-field'',
              PATH_ANNOTATIONS = ''/db/Annotations/480p'',
              PATH_PALETTE = ''/VIDNet/src/dataloader/palette.txt''\<rparr>,
      RESOLUTION = ''480p'', YEAR = ''2016'', PHASE = VAL, MULTIOBJECT = True,
      FILES_DB_INFO = ''/VIDNet/src/dataloader/db_info.yaml'',
      EVAL_METRICS = [''J'', ''F''], EVAL_STATISTICS = [''mean'', ''recall'', ''decay''],
      SEQUENCES = map (\<lambda>s. (ds_name s, s)) ex_info, palette = []\<rparr>"

definition ex_frames :: "string \<Rightarrow> nat \<Rightarrow> string list" where
  "ex_frames d n = map (\<lambda>i. d @ ''/0000'' @ str_nat i @ ''.png'') [0..<n]"

definition ex_files :: "string \<Rightarrow> string list" where
  "ex_files p =
     (if p = TRAIN_SEQUENCES @ ''/a/*.png'' then ex_frames (TRAIN_SEQUENCES @ ''/a'') 4
      else if p = TRAIN_SEQUENCES @ ''/b/*.png'' then ex_frames (TRAIN_SEQUENCES @ ''/b'') 4
      else if p = VAL_SEQUENCES @ ''/c/*.png'' then ex_frames (VAL_SEQUENCES @ ''/c'') 2
      else if p = ''/db/Annotations/480p/a/*.png'' then ex_frames ''/db/Annotations/480p/a'' 4
      else if p = ''/db/Annotations/480p/b/*.png'' then ex_frames ''/db/Annotations/480p/b'' 4
      else if p = ''/db/Annotations/480p/c/*.png'' then ex_frames ''/db/Annotations/480p/c'' 2
      else [])"

definition ex_world :: world where
  "ex_world =
     \<lparr>cfg = ex_cfg,
      fs_isdir = (\<lambda>p. p = TRAIN_SEQUENCES @ ''/a'' \<or> p = TRAIN_SEQUENCES @ ''/b''
                     \<or> p = VAL_SEQUENCES @ ''/c'' \<or> p = VAL_SEQUENCES @ ''/d''),
      fs_glob = ex_files,
      fs_db_info = (\<lambda>p. if p = ''/VIDNet/src/dataloader/db_info.yaml'' then Inr ex_info
                         else Inl FileNotFoundError),
      fs_collection = (\<lambda>lmdb_env. ex_files)\<rparr>"

definition ex_args :: args where
  "ex_args =
     \<lparr>a_year = SStr ''2017'', a_single_object = False, a_length_clip = 2,
      a_gt_maxseqlen = 10, a_dataset = ''davis2017''\<rparr>"

section \<open>train.py\<close>

text \<open>
  What \<open>yaml.safe_load\<close> returns is an object graph: scalars, and lists, sets and
  mappings that live on a heap and are referred to by their address, so that an alias of
  the document can make a container contain itself. \<open>YFloat\<close>, \<open>YBytes\<close> and \<open>YDate\<close>
  carry the text of the value; \<open>YDate\<close> stands for a date or a timestamp. The keys of a
  mapping and the elements of a set are scalars.
\<close>

datatype yval =
    YNull | YBool bool | YInt int | YFloat string | YStr string | YBytes string | YDate string
  | YRef nat

datatype yobj = YList "yval list" | YSet "yval list" | YMap "(yval \<times> yval) list"

text \<open>A loaded value: the heap of its document, and the value.\<close>

type_synonym yaml = "yobj list \<times> yval"


subsection \<open>\<open>json.dumps\<close>\<close>




text \<open>
  The file system as train.py sees it: a path names nothing, a directory, or a file. A
  file is not text in the encoding \<open>open\<close> reads it in, or text that is not valid YAML,
  or the document \<open>yaml.safe_load\<close> returns for it. Permissions and the console are not
  part of the model: a file that is there can be read, and printing succeeds.
\<close>

datatype content = NotText | NotYaml | Doc yaml

datatype fnode = NoEntry | Dir | File content

type_synonym fs = "string \<Rightarrow> fnode"

text \<open>
  A path with a NUL character names nothing: \<open>os.path.exists\<close> and \<open>os.path.isdir\<close>
  answer \<open>False\<close> for it, and \<open>os.mkdir\<close> and \<open>open\<close> raise ValueError.
\<close>

definition valid_path :: "string \<Rightarrow> bool" where
  "valid_path p = (CHR 0x00 \<notin> set p)"

definition exists_path :: "fs \<Rightarrow> string \<Rightarrow> bool" where
  "exists_path fs p = (valid_path p \<and> fs p \<noteq> NoEntry)"


text \<open>
  \<open>os.makedirs(p)\<close>: raises when the path exists, creates the directory otherwise.
  Parent directories are not part of the model.
\<close>

definition makedirs :: "fs \<Rightarrow> string \<Rightarrow> error + fs" where
  "makedirs fs p =
     (if \<not> valid_path p then Inl ValueError
      else if fs p \<noteq> NoEntry then Inl FileExistsError
      else Inr (fs(p := Dir)))"


text \<open>\<open>--gpus\<close>: the default \<open>-1\<close> or a list of device numbers.\<close>

datatype gpus = GpuInt int | GpuList "int list"

text \<open>
  The \<open>argparse.Namespace\<close> of \<open>main\<close>. The last three attributes exist only once
  \<open>parse_args\<close> has set them: \<open>None\<close> stands for a missing attribute there, and for
  Python's \<open>None\<close> in the other optional fields.
\<close>

record namespace =
  ns_config :: string
  ns_prev_ckpt :: "string option"
  ns_resume :: bool
  ns_version :: string
  ns_log_dir :: "string option"
  ns_fast_dev_run :: bool
  ns_pre :: string
  ns_gpus :: gpus
  ns_logger :: "string option"
  ns_uid :: "string option"
  ns_model_args :: "yaml option"
  ns_training_args :: "yaml option"
  ns_max_epochs :: "yaml option"

text \<open>The truth value of an optional string: \<open>None\<close> and the empty string are false.\<close>

fun truthy :: "string option \<Rightarrow> bool" where
  "truthy None = False"
| "truthy (Some s) = (s \<noteq> [])"

text \<open>An optional string inside an f-string.\<close>

fun fmt :: "string option \<Rightarrow> string" where
  "fmt None = ''None''"
| "fmt (Some s) = s"




text \<open>The loggers, with the arguments they are constructed with.\<close>

datatype logger =
    TensorBoardLogger (tb_save_dir: string) (tb_version: string) (tb_name: "string option")
      (tb_log_graph: bool)
  | WandbLogger (wb_project: string) (wb_save_dir: string) (wb_version: string) (wb_name: string)
      (wb_log_model: string)

text \<open>
  \<open>prepare_logger\<close>. \<open>cwd\<close> is \<open>os.getcwd()\<close> and \<open>new_id\<close> what
  \<open>wandb.util.generate_id()\<close> returns.
\<close>

definition prepare_logger ::
  "string \<Rightarrow> string \<Rightarrow> namespace \<Rightarrow> fs \<Rightarrow> (error + logger option \<times> string option) \<times> fs" where
  "prepare_logger cwd new_id ar fs =
     (if ns_fast_dev_run ar then (Inr (None, None), fs)
      else
        (let logger_method = (case ns_logger ar of None \<Rightarrow> ''tensorboard'' | Some l \<Rightarrow> l);
             log_path = fmt (ns_log_dir ar) @ ''/version_'' @ ns_version ar
         in if logger_method = ''tensorboard'' then
              (Inr (Some (TensorBoardLogger cwd (''version_'' @ ns_version ar) (ns_log_dir ar) True),
                    Some log_path), fs)
            else if logger_method = ''wandb'' then
              (let wandb_path = log_path @ ''/wandb'' in
               case (if \<not> exists_path fs wandb_path then makedirs fs wandb_path else Inr fs) of
                 Inl e \<Rightarrow> (Inl e, fs)
               | Inr fs' \<Rightarrow>
                   (let run_uid = (if truthy (ns_uid ar) then fmt (ns_uid ar) else new_id)
                    in (Inr (Some (WandbLogger ''vidnet'' log_path
                                     (''version_'' @ ns_version ar @ ''_'' @ run_uid)
                                     (''vidnet_'' @ ns_version ar @ ''_'' @ run_uid) ''all''),
                             Some wandb_path), fs')))
            else (Inl NotImplementedError, fs)))"

text \<open>The callbacks and the \<open>Trainer\<close>, with the arguments they are constructed with.\<close>

record model_checkpoint =
  dirpath :: string
  monitor :: string
  filename :: string
  verbose :: bool
  save_last :: bool
  save_top_k :: int
  mode :: string

datatype callback =
    ModelSummary int
  | TQDMProgressBar nat
  | ModelCheckpoint model_checkpoint
  | LearningRateMonitor string

datatype devices = DevInt int | DevAuto | DevList "int list"

record trainer =
  t_accelerator :: string
  t_devices :: devices
  t_max_epochs :: yaml
  t_logger :: "logger option"
  t_callbacks :: "callback list"
  t_fast_dev_run :: bool
  t_enable_checkpointing :: bool
  t_log_every_n_steps :: nat

text \<open>
  \<open>train\<close> up to the construction of the \<open>Trainer\<close>; fitting belongs to the training
  framework. \<open>mk_model\<close> stands for \<open>prepare_model\<close>, whose constructors come from
  \<open>vidnet_plwrapper\<close>, a module that is not among the sources.
\<close>

definition train ::
  "(namespace \<Rightarrow> error + 'm) \<Rightarrow> string \<Rightarrow> string \<Rightarrow> namespace \<Rightarrow> fs \<Rightarrow> (error + trainer) \<times> fs" where
  "train mk_model cwd new_id ar fs =
     (case mk_model ar of
        Inl e \<Rightarrow> (Inl e, fs)
      | Inr model \<Rightarrow>
          (case prepare_logger cwd new_id ar fs of
             (Inl e, fs') \<Rightarrow> (Inl e, fs')
           | (Inr (lg, log_path), fs') \<Rightarrow>
               (let lr_monitor = LearningRateMonitor ''step'';
                    model_ckpt = ModelCheckpoint
                      \<lparr>dirpath = fmt log_path @ ''/checkpoints'', monitor = ''val_f1'',
                       filename = (if ns_pre ar \<noteq> '''' then ns_pre ar @ ''-'' else '''')
                                    @ ''{epoch:02d}-{val_f1:.4f}-{val_jaccard:.4f}'',
                       verbose = True, save_last = True, save_top_k = 2, mode = ''max''\<rparr>;
                    cbs = (if ns_fast_dev_run ar then []
                           else [ModelSummary (- 1), TQDMProgressBar 1, model_ckpt, lr_monitor]);
                    num_gpus = (if ns_fast_dev_run ar then DevInt 1
                                else (case ns_gpus ar of
                                        GpuInt g \<Rightarrow> if g = - 1 then DevAuto else DevInt g
                                      | GpuList gs \<Rightarrow> DevList gs))
                in case ns_max_epochs ar of
                     None \<Rightarrow> (Inl AttributeError, fs')
                   | Some n \<Rightarrow>
                       (Inr \<lparr>t_accelerator = ''auto'', t_devices = num_gpus, t_max_epochs = n,
                             t_logger = lg, t_callbacks = cbs,
                             t_fast_dev_run = ns_fast_dev_run ar,
                             t_enable_checkpointing = (\<not> ns_fast_dev_run ar),
                             t_log_every_n_steps = 10\<rparr>, fs'))))"

text \<open>A configuration file and a namespace as \<open>main\<close> builds it from \<open>-c cfg.yaml\<close>.\<close>

definition ex_heap :: "yobj list" where
  "ex_heap =
     [YMap [(YStr ''model_args'', YRef 1), (YStr ''training_args'', YRef 2)],
      YMap [(YStr ''encoder'', YRef 3), (YStr ''decoder'', YRef 4)],
      YMap [(YStr ''max_epochs'', YInt 30)],
      YMap [], YMap []]"

definition ex_doc :: yaml where
  "ex_doc = (ex_heap, YRef 0)"



definition ex_fs :: fs where
  "ex_fs = (\<lambda>p. if p = ''cfg.yaml'' then File (Doc ex_doc) else NoEntry)"

definition ex_ns :: namespace where
  "ex_ns =
     \<lparr>ns_config = ''cfg.yaml'', ns_prev_ckpt = None, ns_resume = False, ns_version = ''0'',
      ns_log_dir = Some ''lightning_logs/vidnet'', ns_fast_dev_run = False, ns_pre = '''',
      ns_gpus = GpuInt (- 1), ns_logger = Some ''tensorboard'', ns_uid = None,
      ns_model_args = None, ns_training_args = None, ns_max_epochs = None\<rparr>"

section \<open>Specification predicates\<close>

text \<open>
  The clips of one file list: there are \<open>max 1 (num_frames div L)\<close> of them, and the
  \<open>i\<close>-th starts at the frame number parsed from the file at index \<open>i * L\<close>.
\<close>

definition clip_starts_ok :: "nat \<Rightarrow> string list \<Rightarrow> nat \<Rightarrow> int list \<Rightarrow> bool" where
  "clip_starts_ok L fl num_frames starts =
     (length starts = max 1 (num_frames div L)
      \<and> list_all (\<lambda>i. i * L < length fl \<and> frame_number (fl ! (i * L)) = Inr (starts ! i))
           [0..<length starts])"

text \<open>The loaders that \<open>__init__\<close> builds on the small dataset.\<close>

definition ex_train_loader :: DAVISLoader where
  "ex_train_loader = projr (fst (DAVISLoader_init ex_args False (VStr ''train'') False ex_world))"

definition ex_train_world :: world where
  "ex_train_world = snd (DAVISLoader_init ex_args False (VStr ''train'') False ex_world)"

definition ex_prev_mask_loader :: DAVISLoader where
  "ex_prev_mask_loader = projr (fst (DAVISLoader_init ex_args False (VStr ''train'') True ex_world))"

text \<open>The small dataset with only two of the four masks of \<open>a\<close> on disk.\<close>

definition ex_world_two_masks :: world where
  "ex_world_two_masks =
     ex_world\<lparr>fs_collection := (\<lambda>lmdb_env p.
        if p = ''/db/Annotations/480p/a/*.png'' then ex_frames ''/db/Annotations/480p/a'' 2
        else ex_files p)\<rparr>"

definition ex_two_masks_loader :: DAVISLoader where
  "ex_two_masks_loader =
     projr (fst (DAVISLoader_init ex_args False (VStr ''train'') False ex_world_two_masks))"

text \<open>Name and starting frame of the two clips of a sample.\<close>

definition clip_ids :: "raw_sample_clip \<Rightarrow> (string \<times> int) \<times> (string \<times> int)" where
  "clip_ids r =
     ((sc_name (clip_images r), sc_starting_frame (clip_images r)),
      (ac_name (clip_annotations r), ac_starting_frame (clip_annotations r)))"



section \<open>Properties of the accessors\<close>

lemma get_raw_sample_state: "snd (get_raw_sample key self) = self"
  by (simp add: get_raw_sample_def split: sum.splits)

lemma get_raw_sample_clip_state: "snd (get_raw_sample_clip key self) = self"
  by (simp add: get_raw_sample_clip_def split: sum.splits)

text \<open>
  C8. A key that is neither a string nor an integer makes \<open>get_raw_sample\<close> and
  \<open>get_raw_sample_clip\<close> raise instead of returning, and the exception is NameError,
  since \<open>InputError\<close> is not defined.
\<close>

theorem C8_other_key_raises_NameError:
  assumes "\<not> isinstance_str key" and "\<not> isinstance_int key"
  shows "fst (get_raw_sample key self) = Inl NameError
       \<and> fst (get_raw_sample_clip key self) = Inl NameError"
  using assms by (simp add: get_raw_sample_def get_raw_sample_clip_def sample_sid_def)

section \<open>The filter objects and the clip loops\<close>

lemma db_read_sequences_Some:
  assumes "db_read_sequences (Some y) p w = Inr it"
  shows "\<exists>xs. db_read_info w = Inr xs \<and>
           it = PyFilter (YearLE y # (if p = VNone then [] else if p = VPhase TRAINVAL
                                       then [SetTrainVal] else [SetEqIsdir p])) xs"
  using assms by (auto simp: db_read_sequences_def split: sum.splits if_splits)

lemma next_match_skip:
  "holds_all w ps s = Inr False \<Longrightarrow> next_match w ps (s # xs) = next_match w ps xs"
  by simp

lemma drain_no_error_Cons:
  assumes "drain w ps (s # xs) = (ys, None)"
  obtains b ys' where "holds_all w ps s = Inr b" "drain w ps xs = (ys', None)"
    "ys = (if b then s # ys' else ys')"
  using assms by (auto split: sum.splits prod.splits if_splits)

lemma zip_loop_success:
  assumes "drain w ps xs = (ys, None)" and "length zs = length ys"
    and "zip_loop w body zs ps xs = Inr (cs, r)"
  shows "\<exists>css. cs = concat css \<and> length css = length zs
           \<and> (\<forall>i<length zs. body (zs ! i) (ys ! i) = Inr (css ! i))
           \<and> drain w ps r = ([], None)"
  using assms
proof (induction xs arbitrary: ys zs cs)
  case Nil
  then show ?case by (cases zs) auto
next
  case (Cons s xs)
  from Cons.prems(1) obtain b ys' where b: "holds_all w ps s = Inr b"
    and d: "drain w ps xs = (ys', None)" and ys: "ys = (if b then s # ys' else ys')"
    by (rule drain_no_error_Cons)
  show ?case
  proof (cases zs)
    case Nil
    with Cons.prems ys b d show ?thesis by (auto split: if_splits)
  next
    case zs: (Cons z zs')
    show ?thesis
    proof (cases b)
      case False
      with b have "zip_loop w body zs ps (s # xs) = zip_loop w body zs ps xs"
        by (simp add: zs)
      with Cons.prems(3) have "zip_loop w body zs ps xs = Inr (cs, r)" by simp
      from Cons.IH [OF d _ this] Cons.prems(2) ys False show ?thesis by simp
    next
      case True
      with Cons.prems(3) b zs obtain c cs' where c: "body z s = Inr c"
        and l: "zip_loop w body zs' ps xs = Inr (cs', r)" and cs: "cs = c @ cs'"
        by (auto split: sum.splits prod.splits)
      from Cons.prems(2) ys True zs have len: "length zs' = length ys'" by simp
      from Cons.IH [OF d len l] obtain css where css: "cs' = concat css"
        "length css = length zs'" "\<forall>i<length zs'. body (zs' ! i) (ys' ! i) = Inr (css ! i)"
        "drain w ps r = ([], None)" by blast
      show ?thesis
      proof (intro exI [of _ "c # css"] conjI allI impI)
        fix i assume "i < length zs"
        then show "body (zs ! i) (ys ! i) = Inr ((c # css) ! i)"
          using css(3) c zs ys True by (cases i) auto
      qed (use css cs zs in auto)
    qed
  qed
qed

lemma init_body_Inr:
  assumes "init_body ar augment split pm w = Inr ld"
  shows "\<exists>it ys it3.
           db_read_sequences (Some (a_year ar)) split w = Inr it
         \<and> iterate w it = (ys, None)
         \<and> sequences ld = map (\<lambda>s. Sequence w (ds_name s) ''*.png'' (lmdb_env_of w ''lmdb_seq'')) ys
         \<and> annotations ld =
             map (\<lambda>s. Annotation w (ds_name s) (a_single_object ar) (lmdb_env_of w ''lmdb_annot'')) ys
         \<and> zip_iter w (sequence_clips_of w pm (a_length_clip ar) (lmdb_env_of w ''lmdb_seq''))
               (sequences ld) it = Inr (sequence_clips ld, it3)
         \<and> zip_iter w (annotation_clips_of (a_length_clip ar)) (annotations ld) it
               = Inr (annotation_clips ld, l_db_sequences ld)"
  using assms unfolding init_body_def comprehension_def Let_def
  by (auto split: if_splits sum.splits prod.splits option.splits)


lemma py_index_nonneg:
  assumes "py_index xs i = Inr x" and "0 \<le> i"
  shows "nat i < length xs \<and> x = xs ! nat i"
  using assms by (auto simp: py_index_def split: if_splits)

lemma more_clips_success:
  assumes "more_clips mk imgs L k idx = Inr cs" and "0 < L" and "0 \<le> idx"
  shows "length cs = k \<and>
         (\<forall>i<k. nat (idx + (int i + 1) * L) < length imgs \<and>
            (\<exists>sf. frame_number (imgs ! nat (idx + (int i + 1) * L)) = Inr sf \<and> cs ! i = mk sf))"
  using assms
proof (induction k arbitrary: idx cs)
  case 0
  then show ?case by simp
next
  case (Suc k)
  from Suc.prems(1) obtain f sf cs' where f: "py_index imgs (idx + L) = Inr f"
    and sf: "frame_number f = Inr sf"
    and r: "more_clips mk imgs L k (idx + L) = Inr cs'" and cs: "cs = mk sf # cs'"
    by (auto split: sum.splits)
  from Suc.prems have pos: "0 \<le> idx + L" by simp
  from py_index_nonneg [OF f pos] have f': "nat (idx + L) < length imgs" "f = imgs ! nat (idx + L)"
    by simp_all
  from Suc.IH [OF r Suc.prems(2) pos] have ih: "length cs' = k"
    "\<forall>i<k. nat (idx + L + (int i + 1) * L) < length imgs \<and>
        (\<exists>sf. frame_number (imgs ! nat (idx + L + (int i + 1) * L)) = Inr sf \<and> cs' ! i = mk sf)"
    by simp_all
  show ?case
  proof (intro conjI allI impI)
    show "length cs = Suc k" using cs ih(1) by simp
  next
    fix i assume i: "i < Suc k"
    show "nat (idx + (int i + 1) * L) < length imgs"
    proof (cases i)
      case 0 then show ?thesis using f' by simp
    next
      case (Suc j)
      then have e: "idx + (int i + 1) * L = idx + L + (int j + 1) * L" by (simp add: algebra_simps)
      from ih(2) i Suc have "nat (idx + L + (int j + 1) * L) < length imgs" by blast
      then show ?thesis by (simp only: e)
    qed
  next
    fix i assume i: "i < Suc k"
    show "\<exists>sf. frame_number (imgs ! nat (idx + (int i + 1) * L)) = Inr sf \<and> cs ! i = mk sf"
    proof (cases i)
      case 0 then show ?thesis using f' sf cs by simp
    next
      case (Suc j)
      then have e: "idx + (int i + 1) * L = idx + L + (int j + 1) * L" by (simp add: algebra_simps)
      from ih(2) i Suc have "\<exists>sf. frame_number (imgs ! nat (idx + L + (int j + 1) * L)) = Inr sf
          \<and> cs' ! j = mk sf" by blast
      moreover have "cs ! i = cs' ! j" using cs Suc by simp
      ultimately show ?thesis by (simp only: e)
    qed
  qed
qed

lemma clips_of_success:
  assumes "clips_of mk imgs n L = Inr cs" and "0 < L"
  shows "length cs = max 1 (n div nat L) \<and>
         (\<forall>i<length cs. i * nat L < length imgs \<and>
            (\<exists>sf. frame_number (imgs ! (i * nat L)) = Inr sf \<and> cs ! i = mk sf))"
proof -
  from assms obtain f sf cs' where f: "py_index imgs 0 = Inr f"
    and sf: "frame_number f = Inr sf"
    and r: "more_clips mk imgs L (nat (int n div L - 1)) 0 = Inr cs'" and cs: "cs = mk sf # cs'"
    by (auto simp: clips_of_def num_clips_of_def split: sum.splits if_splits)
  from py_index_nonneg [OF f] have f': "0 < length imgs" "f = imgs ! 0" by simp_all
  have "int n div L = int (n div nat L)"
    using assms(2) by (simp add: zdiv_int)
  then have k: "nat (int n div L - 1) = n div nat L - 1"
    by (simp add: nat_diff_distrib')
  from more_clips_success [OF r assms(2)] have m: "length cs' = n div nat L - 1"
    "\<forall>i<length cs'. nat ((int i + 1) * L) < length imgs \<and>
        (\<exists>sf. frame_number (imgs ! nat ((int i + 1) * L)) = Inr sf \<and> cs' ! i = mk sf)"
    using k by simp_all
  have idx: "nat ((int j + 1) * L) = Suc j * nat L" for j
    using assms(2) by (simp add: nat_mult_distrib nat_add_distrib)
  show ?thesis
  proof (intro conjI allI impI)
    show "length cs = max 1 (n div nat L)" using cs m(1) by simp
  next
    fix i assume "i < length cs"
    then show "i * nat L < length imgs" using cs m(2) f' idx by (cases i) auto
  next
    fix i assume "i < length cs"
    then show "\<exists>sf. frame_number (imgs ! (i * nat L)) = Inr sf \<and> cs ! i = mk sf"
      using cs m(2) f' sf idx by (cases i) auto
  qed
qed

text \<open>
  The clip loop returns whenever the files it reads are there and their names parse.
\<close>

lemma py_index_in_range: "0 \<le> i \<Longrightarrow> nat i < length xs \<Longrightarrow> py_index xs i = Inr (xs ! nat i)"
  by (simp add: py_index_def)

lemma more_clips_returns:
  assumes "0 < L" and "0 \<le> idx"
    and "\<forall>i<k. nat (idx + (int i + 1) * L) < length imgs
            \<and> (\<exists>sf. frame_number (imgs ! nat (idx + (int i + 1) * L)) = Inr sf)"
  shows "\<exists>cs. more_clips mk imgs L k idx = Inr cs"
  using assms
proof (induction k arbitrary: idx)
  case 0
  show ?case by simp
next
  case (Suc k)
  from Suc.prems(3) [rule_format, of 0] obtain sf where
    r: "nat (idx + L) < length imgs" and sf: "frame_number (imgs ! nat (idx + L)) = Inr sf"
    by auto
  from Suc.prems(1,2) have pos: "0 \<le> idx + L" by simp
  have "\<forall>i<k. nat (idx + L + (int i + 1) * L) < length imgs
            \<and> (\<exists>sf. frame_number (imgs ! nat (idx + L + (int i + 1) * L)) = Inr sf)"
  proof (intro allI impI)
    fix i assume "i < k"
    then have "Suc i < Suc k" by simp
    from Suc.prems(3) [rule_format, OF this]
    have "nat (idx + (int (Suc i) + 1) * L) < length imgs
            \<and> (\<exists>sf. frame_number (imgs ! nat (idx + (int (Suc i) + 1) * L)) = Inr sf)" .
    moreover have "idx + (int (Suc i) + 1) * L = idx + L + (int i + 1) * L"
      by (simp add: algebra_simps)
    ultimately show "nat (idx + L + (int i + 1) * L) < length imgs
            \<and> (\<exists>sf. frame_number (imgs ! nat (idx + L + (int i + 1) * L)) = Inr sf)"
      by (simp only:)
  qed
  from Suc.IH [OF Suc.prems(1) pos this] obtain cs where
    "more_clips mk imgs L k (idx + L) = Inr cs" by blast
  with py_index_in_range [OF pos r] sf show ?case by simp
qed

lemma clips_of_returns:
  assumes "0 < L"
    and "\<forall>i<max 1 (n div nat L). i * nat L < length imgs
            \<and> (\<exists>sf. frame_number (imgs ! (i * nat L)) = Inr sf)"
  shows "\<exists>cs. clips_of mk imgs n L = Inr cs"
proof -
  have "(0::nat) < max 1 (n div nat L)" by simp
  from assms(2) [rule_format, OF this] obtain sf where
    r: "0 < length imgs" and sf: "frame_number (imgs ! 0) = Inr sf" by auto
  have "int n div L = int (n div nat L)"
    using assms(1) by (simp add: zdiv_int)
  then have k: "nat (int n div L - 1) = n div nat L - 1"
    by (simp add: nat_diff_distrib')
  have idx: "nat ((int j + 1) * L) = Suc j * nat L" for j
    using assms(1) by (simp add: nat_mult_distrib nat_add_distrib)
  have "\<forall>i<n div nat L - 1. nat (0 + (int i + 1) * L) < length imgs
            \<and> (\<exists>sf. frame_number (imgs ! nat (0 + (int i + 1) * L)) = Inr sf)"
  proof (intro allI impI)
    fix i assume "i < n div nat L - 1"
    then have "Suc i < max 1 (n div nat L)" by simp
    from assms(2) [rule_format, OF this] show
      "nat (0 + (int i + 1) * L) < length imgs
            \<and> (\<exists>sf. frame_number (imgs ! nat (0 + (int i + 1) * L)) = Inr sf)"
      by (simp only: idx add_0)
  qed
  from more_clips_returns [OF assms(1) _ this, of mk] obtain cs where
    "more_clips mk imgs L (n div nat L - 1) 0 = Inr cs" by auto
  with r sf k assms(1) show ?thesis
    by (simp add: clips_of_def num_clips_of_def py_index_def)
qed

lemma zip_iter_filter:
  assumes "zip_iter w body zs (PyFilter ps xs) = Inr (cs, it')"
  shows "\<exists>r. zip_loop w body zs ps xs = Inr (cs, r) \<and> it' = PyFilter ps r"
  using assms by (auto split: sum.splits prod.splits)

lemma init_Inr:
  assumes "DAVISLoader_init ar augment split pm w = (Inr ld, w')"
  shows "w' = set_sequences_path split w \<and>
    (\<exists>ps r ys css acss.
        l_db_sequences ld = PyFilter ps r \<and> drain w' ps r = ([], None)
      \<and> sequences ld = map (\<lambda>s. Sequence w' (ds_name s) ''*.png'' (lmdb_env_of w' ''lmdb_seq'')) ys
      \<and> annotations ld =
          map (\<lambda>s. Annotation w' (ds_name s) (a_single_object ar) (lmdb_env_of w' ''lmdb_annot'')) ys
      \<and> sequence_clips ld = concat css \<and> length css = length ys
      \<and> (\<forall>i<length ys.
            sequence_clips_of w' pm (a_length_clip ar) (lmdb_env_of w' ''lmdb_seq'')
              (sequences ld ! i) (ys ! i) = Inr (css ! i))
      \<and> annotation_clips ld = concat acss \<and> length acss = length ys
      \<and> (\<forall>i<length ys.
            annotation_clips_of (a_length_clip ar) (annotations ld ! i) (ys ! i) = Inr (acss ! i)))"
proof -
  from assms have w': "w' = set_sequences_path split w"
    and b: "init_body ar augment split pm w' = Inr ld"
    by (auto simp: DAVISLoader_init_def Let_def)
  from init_body_Inr [OF b] obtain it ys it3 where
    it: "db_read_sequences (Some (a_year ar)) split w' = Inr it"
    and ys: "iterate w' it = (ys, None)"
    and sq: "sequences ld = map (\<lambda>s. Sequence w' (ds_name s) ''*.png'' (lmdb_env_of w' ''lmdb_seq'')) ys"
    and an: "annotations ld =
        map (\<lambda>s. Annotation w' (ds_name s) (a_single_object ar) (lmdb_env_of w' ''lmdb_annot'')) ys"
    and z1: "zip_iter w' (sequence_clips_of w' pm (a_length_clip ar) (lmdb_env_of w' ''lmdb_seq''))
               (sequences ld) it = Inr (sequence_clips ld, it3)"
    and z2: "zip_iter w' (annotation_clips_of (a_length_clip ar)) (annotations ld) it
               = Inr (annotation_clips ld, l_db_sequences ld)"
    by blast
  from db_read_sequences_Some [OF it] obtain ps xs where f: "it = PyFilter ps xs" by blast
  from ys f have d: "drain w' ps xs = (ys, None)" by simp
  from zip_iter_filter [OF z1 [unfolded f]] obtain r1 where
    l1: "zip_loop w' (sequence_clips_of w' pm (a_length_clip ar) (lmdb_env_of w' ''lmdb_seq''))
            (sequences ld) ps xs = Inr (sequence_clips ld, r1)" by blast
  from zip_iter_filter [OF z2 [unfolded f]] obtain r2 where
    l2: "zip_loop w' (annotation_clips_of (a_length_clip ar)) (annotations ld) ps xs
            = Inr (annotation_clips ld, r2)" and r2: "l_db_sequences ld = PyFilter ps r2" by blast
  have n1: "length (sequences ld) = length ys" using sq by simp
  have n2: "length (annotations ld) = length ys" using an by simp
  from zip_loop_success [OF d n1 l1] obtain css where
    c1: "sequence_clips ld = concat css" "length css = length ys"
      "\<forall>i<length ys. sequence_clips_of w' pm (a_length_clip ar) (lmdb_env_of w' ''lmdb_seq'')
           (sequences ld ! i) (ys ! i) = Inr (css ! i)"
    using n1 by auto
  from zip_loop_success [OF d n2 l2] obtain acss where
    c2: "annotation_clips ld = concat acss" "length acss = length ys"
      "\<forall>i<length ys. annotation_clips_of (a_length_clip ar) (annotations ld ! i) (ys ! i)
           = Inr (acss ! i)"
      "drain w' ps r2 = ([], None)"
    using n2 by auto
  show ?thesis using w' r2 sq an c1 c2 by blast
qed

lemma clips_of_starts_ok:
  assumes "clips_of mk imgs n L = Inr cs" and "0 < L" and "\<And>sf. start (mk sf) = sf"
  shows "clip_starts_ok (nat L) imgs n (map start cs)"
proof -
  from clips_of_success [OF assms(1,2)] have len: "length cs = max 1 (n div nat L)"
    and el: "\<forall>i<length cs. i * nat L < length imgs \<and>
            (\<exists>sf. frame_number (imgs ! (i * nat L)) = Inr sf \<and> cs ! i = mk sf)" by simp_all
  have "\<forall>i<length cs. i * nat L < length imgs
          \<and> frame_number (imgs ! (i * nat L)) = Inr (map start cs ! i)"
    using el assms(3) by auto
  then show ?thesis using len by (simp add: clip_starts_ok_def list_all_iff)
qed

text \<open>
  C1 (amended). When \<open>use_prev_mask\<close> is false and the clip length \<open>L\<close> is at least 1, a
  loader that \<open>__init__\<close> returns holds, for every sequence, \<open>max 1 (num_frames div L)\<close>
  sequence clips, and for every annotation as many annotation clips of its own frame
  count; the clips of one sequence are consecutive in \<open>sequence_clips\<close>, in the order of
  the sequences, and the \<open>i\<close>-th of them starts at the frame number parsed from the
  basename of the file at index \<open>i * L\<close> of the file list.
\<close>

theorem C1_clips_per_sequence:
  assumes "DAVISLoader_init ar augment split False w = (Inr ld, w')"
    and "1 \<le> a_length_clip ar"
  shows "\<exists>css acss.
      sequence_clips ld = concat css \<and> length css = length (sequences ld)
    \<and> annotation_clips ld = concat acss \<and> length acss = length (annotations ld)
    \<and> (\<forall>j<length (sequences ld).
          clip_starts_ok (nat (a_length_clip ar)) (seq_files (sequences ld ! j))
            (seq_numframes (sequences ld ! j)) (map sc_starting_frame (css ! j)))
    \<and> (\<forall>j<length (annotations ld).
          clip_starts_ok (nat (a_length_clip ar)) (ann_files (annotations ld ! j))
            (ann_numframes (annotations ld ! j)) (map ac_starting_frame (acss ! j)))"
proof -
  let ?L = "a_length_clip ar"
  from assms(2) have L: "0 < ?L" by simp
  from init_Inr [OF assms(1)] obtain ys css acss where
    sq: "length (sequences ld) = length ys" and an: "length (annotations ld) = length ys"
    and c1: "sequence_clips ld = concat css" "length css = length ys"
      "\<forall>i<length ys. sequence_clips_of w' False ?L (lmdb_env_of w' ''lmdb_seq'')
           (sequences ld ! i) (ys ! i) = Inr (css ! i)"
    and c2: "annotation_clips ld = concat acss" "length acss = length ys"
      "\<forall>i<length ys. annotation_clips_of ?L (annotations ld ! i) (ys ! i) = Inr (acss ! i)"
    by (metis (no_types, lifting) length_map)
  have s: "clip_starts_ok (nat ?L) (seq_files (sequences ld ! j))
            (seq_numframes (sequences ld ! j)) (map sc_starting_frame (css ! j))"
    if "j < length (sequences ld)" for j
  proof -
    from that sq c1(3) have "clips_of (SequenceClip_simple (sequences ld ! j))
        (seq_files (sequences ld ! j)) (seq_numframes (sequences ld ! j)) ?L = Inr (css ! j)"
      by (simp add: sequence_clips_of_def)
    from clips_of_starts_ok [OF this L] show ?thesis by (simp add: SequenceClip_simple_def)
  qed
  have a: "clip_starts_ok (nat ?L) (ann_files (annotations ld ! j))
            (ann_numframes (annotations ld ! j)) (map ac_starting_frame (acss ! j))"
    if "j < length (annotations ld)" for j
  proof -
    from that an c2(3) have "clips_of (AnnotationClip_simple (annotations ld ! j))
        (ann_files (annotations ld ! j)) (ann_numframes (annotations ld ! j)) ?L = Inr (acss ! j)"
      by (simp add: annotation_clips_of_def)
    from clips_of_starts_ok [OF this L] show ?thesis by (simp add: AnnotationClip_simple_def)
  qed
  show ?thesis using c1(1,2) c2(1,2) sq an s a by auto
qed

section \<open>The loader on the small dataset\<close>

lemma ex_train_init:
  "DAVISLoader_init ex_args False (VStr ''train'') False ex_world = (Inr ex_train_loader, ex_train_world)"
proof -
  have "\<not> isl (fst (DAVISLoader_init ex_args False (VStr ''train'') False ex_world))"
    by code_simp
  then show ?thesis
    by (simp add: ex_train_loader_def ex_train_world_def prod_eq_iff)
qed

text \<open>
  C1 as stated fails where a sequence has fewer frames than the clip length: the
  validation sequence of the small dataset has two frames, and with \<open>L = 3\<close>, where
  \<open>2 div 3 = 0\<close>, the loader holds one sequence clip and one annotation clip for it.
\<close>

theorem C1_counterexample:
  "map_sum id (\<lambda>ld. (map seq_numframes (sequences ld), length (sequence_clips ld),
                      map ann_numframes (annotations ld), length (annotation_clips ld)))
     (fst (DAVISLoader_init (ex_args\<lparr>a_length_clip := 3\<rparr>) False (VStr ''val'') False ex_world))
   = Inr ([2], 1, [2], 1) \<and> (2::nat) div 3 = 0"
  by code_simp

text \<open>The hypotheses of C1 hold for the training loader of the small dataset.\<close>

theorem C1_witness:
  "DAVISLoader_init ex_args False (VStr ''train'') False ex_world = (Inr ex_train_loader, ex_train_world)
   \<and> 1 \<le> a_length_clip ex_args
   \<and> (\<exists>css acss.
      sequence_clips ex_train_loader = concat css \<and> length css = length (sequences ex_train_loader)
    \<and> annotation_clips ex_train_loader = concat acss \<and> length acss = length (annotations ex_train_loader)
    \<and> (\<forall>j<length (sequences ex_train_loader).
          clip_starts_ok (nat (a_length_clip ex_args)) (seq_files (sequences ex_train_loader ! j))
            (seq_numframes (sequences ex_train_loader ! j)) (map sc_starting_frame (css ! j)))
    \<and> (\<forall>j<length (annotations ex_train_loader).
          clip_starts_ok (nat (a_length_clip ex_args)) (ann_files (annotations ex_train_loader ! j))
            (ann_numframes (annotations ex_train_loader ! j)) (map ac_starting_frame (acss ! j))))"
proof -
  have L: "1 \<le> a_length_clip ex_args" by (simp add: ex_args_def)
  from C1_clips_per_sequence [OF ex_train_init L] ex_train_init L show ?thesis by blast
qed

text \<open>\<open>None\<close> is such a key.\<close>

theorem C8_witness:
  "\<not> isinstance_str KNone \<and> \<not> isinstance_int KNone
   \<and> fst (get_raw_sample KNone ex_train_loader) = Inl NameError
   \<and> fst (get_raw_sample_clip KNone ex_train_loader) = Inl NameError"
  using C8_other_key_raises_NameError [of KNone ex_train_loader] by simp

section \<open>The filter object a loader keeps\<close>

text \<open>
  The predicates read the world only through \<open>cfg.PATH.SEQUENCES\<close> and the directories
  that exist.
\<close>

lemma holds_same_dirs:
  assumes "PATH_SEQUENCES (PATH (cfg v)) = PATH_SEQUENCES (PATH (cfg w))"
    and "fs_isdir v = fs_isdir w"
  shows "holds v p s = holds w p s"
  using assms by (cases p) simp_all

lemma holds_all_same_dirs:
  assumes "PATH_SEQUENCES (PATH (cfg v)) = PATH_SEQUENCES (PATH (cfg w))"
    and "fs_isdir v = fs_isdir w"
  shows "holds_all v ps s = holds_all w ps s"
  by (induction ps) (simp_all add: holds_same_dirs [OF assms] split: sum.splits)

lemma drain_same_dirs:
  assumes "PATH_SEQUENCES (PATH (cfg v)) = PATH_SEQUENCES (PATH (cfg w))"
    and "fs_isdir v = fs_isdir w"
  shows "drain v ps xs = drain w ps xs"
  by (induction xs) (simp_all add: holds_all_same_dirs [OF assms] split: sum.splits)

text \<open>
  C7 (amended). After \<open>__init__\<close> has returned, \<open>_db_sequences\<close> is the filter object
  made last. \<open>sequence_id_to_name(sid)\<close> raises TypeError for every \<open>sid\<close>, and
  \<open>iternames()\<close> yields no element when it runs in a world whose \<open>cfg.PATH.SEQUENCES\<close>
  and directories are those \<open>__init__\<close> left.
\<close>

theorem C7_db_sequences_left_consumed:
  assumes "DAVISLoader_init ar augment split pm w = (Inr ld, w')"
    and "PATH_SEQUENCES (PATH (cfg v)) = PATH_SEQUENCES (PATH (cfg w'))"
    and "fs_isdir v = fs_isdir w'"
  shows "(\<exists>ps rest. l_db_sequences ld = PyFilter ps rest)
       \<and> iternames v ld = ([], None)
       \<and> sequence_id_to_name ld sid = Inl TypeError"
proof -
  from init_Inr [OF assms(1)] obtain ps r where f: "l_db_sequences ld = PyFilter ps r"
    and d: "drain w' ps r = ([], None)" by blast
  from d drain_same_dirs [OF assms(2,3)] have "drain v ps r = ([], None)" by simp
  with f show ?thesis by (simp add: iternames_def sequence_id_to_name_def)
qed

text \<open>The world the training loader of the small dataset was built in is such a world.\<close>

theorem C7_witness:
  "DAVISLoader_init ex_args False (VStr ''train'') False ex_world = (Inr ex_train_loader, ex_train_world)
   \<and> PATH_SEQUENCES (PATH (cfg ex_train_world)) = PATH_SEQUENCES (PATH (cfg ex_train_world))
   \<and> fs_isdir ex_train_world = fs_isdir ex_train_world
   \<and> (\<exists>ps rest. l_db_sequences ex_train_loader = PyFilter ps rest)
   \<and> iternames ex_train_world ex_train_loader = ([], None)
   \<and> sequence_id_to_name ex_train_loader 0 = Inl TypeError"
  using C7_db_sequences_left_consumed [OF ex_train_init refl refl, of 0] ex_train_init by simp

text \<open>
  C7 as stated fails once \<open>cfg.PATH.SEQUENCES\<close> has changed. \<open>zip\<close> stops when the
  annotations are at their end and leaves the entries behind the last match unvisited:
  for the training loader these are \<open>c\<close> and \<open>d\<close>. Building the validation loader next
  points \<open>cfg.PATH.SEQUENCES\<close> to the validation results, where \<open>d\<close> has a directory,
  and \<open>iternames()\<close> of the training loader then yields \<open>d\<close>.
\<close>

theorem C7_counterexample:
  "\<not> isl (fst (DAVISLoader_init ex_args False (VStr ''val'') False ex_train_world))
   \<and> fst (iternames (snd (DAVISLoader_init ex_args False (VStr ''val'') False ex_train_world))
             ex_train_loader)
     = [\<lparr>ds_name = ''d'', ds_year = SInt 2017, ds_set = VStr ''train''\<rparr>]"
  unfolding ex_train_loader_def ex_train_world_def by code_simp

text \<open>
  C9. Whether it returns or raises, \<open>__init__\<close> leaves the world it found with
  \<open>cfg.PATH.SEQUENCES\<close> overwritten, by the validation path when \<open>split\<close> is \<open>'val'\<close> and
  by the training path for every other split, and with nothing else changed: all other
  fields of \<open>cfg\<close>, among them \<open>cfg.PATH.ANNOTATIONS\<close>, \<open>cfg.PATH.DATA\<close> and
  \<open>cfg.SEQUENCES\<close>, are as before.
\<close>

theorem C9_init_writes_only_PATH_SEQUENCES:
  "snd (DAVISLoader_init ar augment split pm w) =
     w\<lparr>cfg := (cfg w)\<lparr>PATH := (PATH (cfg w))\<lparr>PATH_SEQUENCES :=
         (if split = VStr ''val''
          then ''/vulcan/scratch/pengzhou/model/Deep-Video-Inpainting/results/vi_davis/val''
          else ''/vulcan/scratch/pengzhou/model/opn-demo/vi_davis/train'')\<rparr>\<rparr>\<rparr>
   \<and> PATH_ANNOTATIONS (PATH (cfg (snd (DAVISLoader_init ar augment split pm w))))
       = PATH_ANNOTATIONS (PATH (cfg w))
   \<and> PATH_DATA (PATH (cfg (snd (DAVISLoader_init ar augment split pm w)))) = PATH_DATA (PATH (cfg w))
   \<and> SEQUENCES (cfg (snd (DAVISLoader_init ar augment split pm w))) = SEQUENCES (cfg w)"
  by (simp add: DAVISLoader_init_def set_sequences_path_def VAL_SEQUENCES_def TRAIN_SEQUENCES_def Let_def)

section \<open>Samples\<close>

lemma py_index_cases:
  obtains (nonneg) "0 \<le> i" "nat i < length xs" "py_index xs i = Inr (xs ! nat i)"
  | (neg) "i < 0" "- int (length xs) \<le> i" "nat (int (length xs) + i) < length xs"
      "py_index xs i = Inr (xs ! nat (int (length xs) + i))"
  | (out) "py_index xs i = Inl IndexError"
proof (cases "0 \<le> i \<and> i < int (length xs)")
  case True
  then have "nat i < length xs" by linarith
  with True nonneg show ?thesis by (simp add: py_index_def)
next
  case False
  show ?thesis
  proof (cases "i < 0 \<and> - int (length xs) \<le> i")
    case True
    then have "nat (int (length xs) + i) < length xs" by linarith
    with True False neg show ?thesis by (simp add: py_index_def)
  next
    case no: False
    with False out show ?thesis by (simp add: py_index_def)
  qed
qed

lemma py_index_same_length:
  assumes "py_index xs i = Inr x" and "length ys = length xs"
  shows "\<exists>j<length xs. x = xs ! j \<and> py_index ys i = Inr (ys ! j)"
proof (cases rule: py_index_cases [where i = i and xs = xs])
  case nonneg
  with assms show ?thesis by (intro exI [of _ "nat i"]) (simp add: py_index_def)
next
  case neg
  with assms show ?thesis
    by (intro exI [of _ "nat (int (length xs) + i)"]) (simp add: py_index_def)
next
  case out
  with assms show ?thesis by simp
qed

lemma init_body_fields:
  assumes "init_body ar augment split pm w = Inr ld"
  shows "l_keys ld = py_dict (zip (map DSeq (sequences ld)) [0..<length (sequences ld)])
       \<and> l_keys_clips ld =
           py_dict (zip (map (\<lambda>c. DStr (sc_name c @ py_str (sc_starting_frame c))) (sequence_clips ld))
                        [0..<length (sequence_clips ld)])
       \<and> l_use_prev_mask ld = pm \<and> l_length_clip ld = a_length_clip ar \<and> l_phase ld = split"
  using assms unfolding init_body_def comprehension_def Let_def
  by (auto split: if_splits sum.splits prod.splits option.splits)

lemma py_dict_no_string_key: "py_dict (zip (map DSeq xs) ns) (DStr s) = None"
proof -
  have "DStr s \<notin> fst ` set (rev (zip (map DSeq xs) ns))"
    by (auto dest!: set_zip_leftD)
  then show ?thesis by (metis map_of_eq_None_iff py_dict_def)
qed

text \<open>
  The keys of \<open>_keys\<close> are the \<open>Sequence\<close> objects themselves, so no string is among
  them: on a loader that \<open>__init__\<close> built, a string key makes \<open>get_raw_sample\<close> raise
  KeyError.
\<close>

lemma init_string_key_KeyError:
  assumes "DAVISLoader_init ar augment split pm w = (Inr ld, w')"
  shows "fst (get_raw_sample (KStr s) ld) = Inl KeyError"
proof -
  from assms have "init_body ar augment split pm w' = Inr ld"
    by (auto simp: DAVISLoader_init_def Let_def)
  from init_body_fields [OF this] have "l_keys ld (DStr s) = None"
    by (simp add: py_dict_no_string_key)
  then show ?thesis by (simp add: get_raw_sample_def sample_sid_def py_getitem_def)
qed

lemma init_sample_same_sequence:
  assumes "DAVISLoader_init ar augment split pm w = (Inr ld, w')"
    and "py_index (sequences ld) sid = Inr im"
  shows "\<exists>an. py_index (annotations ld) sid = Inr an \<and> ann_name an = seq_name im"
proof -
  have "length (annotations ld) = length (sequences ld)
      \<and> (\<forall>j<length (sequences ld). ann_name (annotations ld ! j) = seq_name (sequences ld ! j))"
    using init_Inr [OF assms(1)]
    by (elim conjE exE) (simp add: Sequence_def Annotation_def Let_def)
  then have len: "length (annotations ld) = length (sequences ld)"
    and nm: "\<And>j. j < length (sequences ld)
           \<Longrightarrow> ann_name (annotations ld ! j) = seq_name (sequences ld ! j)"
    by simp_all
  from py_index_same_length [OF assms(2) len] obtain j where j: "j < length (sequences ld)"
    and im: "im = sequences ld ! j" and a: "py_index (annotations ld) sid = Inr (annotations ld ! j)"
    by blast
  show ?thesis using a im nm [OF j] by simp
qed

text \<open>
  C5. For every loader and every key that is a string present in \<open>_keys\<close> or an integer,
  with \<open>sid\<close> the index the key stands for (\<open>_keys[key]\<close> or the key itself) and \<open>sid\<close> an
  index of \<open>sequences\<close> and of \<open>annotations\<close>, \<open>get_raw_sample\<close> returns the record of
  \<open>sequences[sid]\<close> and \<open>annotations[sid]\<close>; and when \<open>__init__\<close> built the loader, the two
  were made for the same sequence name.
\<close>

theorem C5_sample_pairs_sequence_with_annotation:
  assumes "sample_sid (l_keys ld) key = Inr sid"
    and "py_index (sequences ld) sid = Inr im"
    and "py_index (annotations ld) sid = Inr an"
  shows "fst (get_raw_sample key ld) = Inr \<lparr>images = im, annotations' = an\<rparr>
       \<and> (\<forall>ar augment split pm w w'.
             DAVISLoader_init ar augment split pm w = (Inr ld, w') \<longrightarrow> ann_name an = seq_name im)"
proof (intro conjI allI impI)
  show "fst (get_raw_sample key ld) = Inr \<lparr>images = im, annotations' = an\<rparr>"
    using assms by (simp add: get_raw_sample_def)
next
  fix ar augment split pm w w'
  assume "DAVISLoader_init ar augment split pm w = (Inr ld, w')"
  from init_sample_same_sequence [OF this assms(2)] assms(3)
  show "ann_name an = seq_name im" by auto
qed

text \<open>The key \<open>1\<close> on the training loader of the small dataset.\<close>

theorem C5_witness:
  "sample_sid (l_keys ex_train_loader) (KInt 1) = Inr 1
   \<and> py_index (sequences ex_train_loader) 1 = Inr (sequences ex_train_loader ! 1)
   \<and> py_index (annotations ex_train_loader) 1 = Inr (annotations ex_train_loader ! 1)
   \<and> DAVISLoader_init ex_args False (VStr ''train'') False ex_world = (Inr ex_train_loader, ex_train_world)
   \<and> fst (get_raw_sample (KInt 1) ex_train_loader)
       = Inr \<lparr>images = sequences ex_train_loader ! 1, annotations' = annotations ex_train_loader ! 1\<rparr>
   \<and> ann_name (annotations ex_train_loader ! 1) = seq_name (sequences ex_train_loader ! 1)"
proof -
  have s: "sample_sid (l_keys ex_train_loader) (KInt 1) = Inr 1"
    by (simp add: sample_sid_def)
  have "length (sequences ex_train_loader) = 2"
    unfolding ex_train_loader_def by code_simp
  then have i: "py_index (sequences ex_train_loader) 1 = Inr (sequences ex_train_loader ! 1)"
    by (simp add: py_index_def)
  have "length (annotations ex_train_loader) = 2"
    unfolding ex_train_loader_def by code_simp
  then have j: "py_index (annotations ex_train_loader) 1 = Inr (annotations ex_train_loader ! 1)"
    by (simp add: py_index_def)
  from C5_sample_pairs_sequence_with_annotation [OF s i j] ex_train_init s i j
  show ?thesis by blast
qed

section \<open>Clip samples\<close>

lemma py_index_map: "py_index (map f xs) i = map_sum id f (py_index xs i)"
proof -
  have a: "nat i < length xs" if "0 \<le> i" "i < int (length xs)"
    using that by linarith
  have b: "nat (int (length xs) + i) < length xs" if "i < 0" "- int (length xs) \<le> i"
    using that by linarith
  show ?thesis by (simp add: py_index_def a b)
qed

lemma frame_number_basename: "basename f = basename g \<Longrightarrow> frame_number f = frame_number g"
  by (simp add: frame_number_def)

lemma py_index_basename:
  assumes "map basename fl = map basename fl'"
  shows "(\<exists>e. py_index fl i = Inl e \<and> py_index fl' i = Inl e)
       \<or> (\<exists>f g. py_index fl i = Inr f \<and> py_index fl' i = Inr g \<and> frame_number f = frame_number g)"
proof -
  have "map_sum id basename (py_index fl i) = map_sum id basename (py_index fl' i)"
    using assms by (simp add: py_index_map [symmetric])
  then show ?thesis
    by (cases "py_index fl i"; cases "py_index fl' i") (auto intro: frame_number_basename)
qed

lemma more_clips_basename:
  assumes "map basename fl = map basename fl'"
  shows "more_clips mk fl L k idx = more_clips mk fl' L k idx"
proof (induction k arbitrary: idx)
  case 0
  show ?case by simp
next
  case (Suc k)
  from py_index_basename [OF assms, of "idx + L"] show ?case
    by (auto simp: Suc.IH split: sum.splits)
qed

lemma clips_of_basename:
  assumes "map basename fl = map basename fl'"
  shows "clips_of mk fl n L = clips_of mk fl' n L"
  using py_index_basename [OF assms, of 0]
  by (auto simp: clips_of_def more_clips_basename [OF assms] split: sum.splits)

lemma more_clips_map:
  "more_clips (\<lambda>sf. g (mk sf)) imgs L k idx = map_sum id (map g) (more_clips mk imgs L k idx)"
  by (induction k arbitrary: idx) (auto split: sum.splits)

lemma clips_of_map:
  "clips_of (\<lambda>sf. g (mk sf)) imgs n L = map_sum id (map g) (clips_of mk imgs n L)"
  by (auto simp: clips_of_def more_clips_map split: sum.splits)

lemma clips_of_aligned:
  assumes s: "clips_of (SequenceClip_simple seq) (seq_files seq) (seq_numframes seq) L = Inr cs"
    and a: "clips_of (AnnotationClip_simple annot) (ann_files annot) (ann_numframes annot) L = Inr acs"
    and nm: "ann_name annot = seq_name seq"
    and fl: "map basename (seq_files seq) = map basename (ann_files annot)"
    and n: "seq_numframes seq = ann_numframes annot"
  shows "map (\<lambda>c. (sc_name c, sc_starting_frame c)) cs
       = map (\<lambda>c. (ac_name c, ac_starting_frame c)) acs"
proof -
  let ?p = "\<lambda>sf. (seq_name seq, sf)"
  have "Inr (map (\<lambda>c. (sc_name c, sc_starting_frame c)) cs)
      = map_sum id (map (\<lambda>c. (sc_name c, sc_starting_frame c)))
          (clips_of (SequenceClip_simple seq) (seq_files seq) (seq_numframes seq) L)"
    by (simp add: s)
  also have "\<dots> = clips_of ?p (seq_files seq) (seq_numframes seq) L"
    by (simp add: clips_of_map [symmetric] SequenceClip_simple_def)
  also have "\<dots> = clips_of ?p (ann_files annot) (ann_numframes annot) L"
    by (simp add: clips_of_basename [OF fl] n)
  also have "\<dots> = map_sum id (map (\<lambda>c. (ac_name c, ac_starting_frame c)))
          (clips_of (AnnotationClip_simple annot) (ann_files annot) (ann_numframes annot) L)"
    by (simp add: clips_of_map [symmetric] AnnotationClip_simple_def nm)
  also have "\<dots> = Inr (map (\<lambda>c. (ac_name c, ac_starting_frame c)) acs)"
    by (simp add: a)
  finally show ?thesis by simp
qed

lemma init_clips_aligned:
  assumes init: "DAVISLoader_init ar augment split False w = (Inr ld, w')"
    and same: "list_all2 (\<lambda>s a. map basename (seq_files s) = map basename (ann_files a)
                               \<and> seq_numframes s = ann_numframes a)
                 (sequences ld) (annotations ld)"
  shows "map (\<lambda>c. (sc_name c, sc_starting_frame c)) (sequence_clips ld)
       = map (\<lambda>c. (ac_name c, ac_starting_frame c)) (annotation_clips ld)"
proof -
  let ?L = "a_length_clip ar"
  from init_Inr [OF init] obtain ys css acss where
    sq: "sequences ld = map (\<lambda>s. Sequence w' (ds_name s) ''*.png'' (lmdb_env_of w' ''lmdb_seq'')) ys"
    and an: "annotations ld =
      map (\<lambda>s. Annotation w' (ds_name s) (a_single_object ar) (lmdb_env_of w' ''lmdb_annot'')) ys"
    and c1: "sequence_clips ld = concat css" "length css = length ys"
      "\<forall>i<length ys. sequence_clips_of w' False ?L (lmdb_env_of w' ''lmdb_seq'')
           (sequences ld ! i) (ys ! i) = Inr (css ! i)"
    and c2: "annotation_clips ld = concat acss" "length acss = length ys"
      "\<forall>i<length ys. annotation_clips_of ?L (annotations ld ! i) (ys ! i) = Inr (acss ! i)"
    by (elim conjE exE) blast
  have "map (map (\<lambda>c. (sc_name c, sc_starting_frame c))) css
      = map (map (\<lambda>c. (ac_name c, ac_starting_frame c))) acss"
  proof (rule nth_equalityI)
    show "length (map (map (\<lambda>c. (sc_name c, sc_starting_frame c))) css)
        = length (map (map (\<lambda>c. (ac_name c, ac_starting_frame c))) acss)"
      using c1(2) c2(2) by simp
  next
    fix i assume "i < length (map (map (\<lambda>c. (sc_name c, sc_starting_frame c))) css)"
    then have i: "i < length ys" using c1(2) by simp
    from i c1(3) have s: "clips_of (SequenceClip_simple (sequences ld ! i))
        (seq_files (sequences ld ! i)) (seq_numframes (sequences ld ! i)) ?L = Inr (css ! i)"
      by (simp add: sequence_clips_of_def)
    from i c2(3) have a: "clips_of (AnnotationClip_simple (annotations ld ! i))
        (ann_files (annotations ld ! i)) (ann_numframes (annotations ld ! i)) ?L = Inr (acss ! i)"
      by (simp add: annotation_clips_of_def)
    have nm: "ann_name (annotations ld ! i) = seq_name (sequences ld ! i)"
      using i by (simp add: sq an Sequence_def Annotation_def Let_def)
    from same i sq have fl: "map basename (seq_files (sequences ld ! i))
          = map basename (ann_files (annotations ld ! i))"
      and n: "seq_numframes (sequences ld ! i) = ann_numframes (annotations ld ! i)"
      by (simp_all add: list_all2_conv_all_nth)
    from clips_of_aligned [OF s a nm fl n] i c1(2) c2(2)
    show "map (map (\<lambda>c. (sc_name c, sc_starting_frame c))) css ! i
        = map (map (\<lambda>c. (ac_name c, ac_starting_frame c))) acss ! i"
      by simp
  qed
  then show ?thesis by (simp add: c1(1) c2(1) map_concat)
qed

lemma init_clip_sample_aligned:
  assumes "DAVISLoader_init ar augment split False w = (Inr ld, w')"
    and "list_all2 (\<lambda>s a. map basename (seq_files s) = map basename (ann_files a)
                               \<and> seq_numframes s = ann_numframes a)
                 (sequences ld) (annotations ld)"
    and "py_index (sequence_clips ld) k = Inr c"
  shows "\<exists>a. py_index (annotation_clips ld) k = Inr a
           \<and> ac_name a = sc_name c \<and> ac_starting_frame a = sc_starting_frame c"
proof -
  from init_clips_aligned [OF assms(1,2)]
  have m: "map (\<lambda>c. (sc_name c, sc_starting_frame c)) (sequence_clips ld)
         = map (\<lambda>c. (ac_name c, ac_starting_frame c)) (annotation_clips ld)" .
  then have len: "length (annotation_clips ld) = length (sequence_clips ld)"
    by (metis length_map)
  from py_index_same_length [OF assms(3) len] obtain j where j: "j < length (sequence_clips ld)"
    and c: "c = sequence_clips ld ! j"
    and a: "py_index (annotation_clips ld) k = Inr (annotation_clips ld ! j)" by blast
  from m j len have "(sc_name (sequence_clips ld ! j), sc_starting_frame (sequence_clips ld ! j))
      = (ac_name (annotation_clips ld ! j), ac_starting_frame (annotation_clips ld ! j))"
    by (metis (no_types, lifting) nth_map)
  with a c show ?thesis by simp
qed

text \<open>
  C2 (amended). For every loader and every integer \<open>k\<close> that is an index of
  \<open>sequence_clips\<close> and of \<open>annotation_clips\<close>, \<open>get_raw_sample_clip(k)\<close> returns the
  record of \<open>sequence_clips[k]\<close> and \<open>annotation_clips[k]\<close>; and when \<open>__init__\<close> built
  the loader with \<open>use_prev_mask\<close> false, and every loaded sequence and its annotation
  list files of the same basenames and have the same frame count, the two clips have the
  same sequence name and the same starting frame.
\<close>

theorem C2_clip_sample_pairs:
  assumes "py_index (sequence_clips ld) k = Inr c"
    and "py_index (annotation_clips ld) k = Inr a"
  shows "fst (get_raw_sample_clip (KInt k) ld) = Inr \<lparr>clip_images = c, clip_annotations = a\<rparr>
       \<and> (\<forall>ar augment split w w'.
             DAVISLoader_init ar augment split False w = (Inr ld, w')
             \<and> list_all2 (\<lambda>s a. map basename (seq_files s) = map basename (ann_files a)
                                   \<and> seq_numframes s = ann_numframes a)
                   (sequences ld) (annotations ld)
             \<longrightarrow> ac_name a = sc_name c \<and> ac_starting_frame a = sc_starting_frame c)"
proof -
  have r: "fst (get_raw_sample_clip (KInt k) ld) = Inr \<lparr>clip_images = c, clip_annotations = a\<rparr>"
    using assms by (simp add: get_raw_sample_clip_def sample_sid_def)
  have p: "ac_name a = sc_name c \<and> ac_starting_frame a = sc_starting_frame c"
    if h: "DAVISLoader_init ar augment split False w = (Inr ld, w')
             \<and> list_all2 (\<lambda>s a. map basename (seq_files s) = map basename (ann_files a)
                                   \<and> seq_numframes s = ann_numframes a)
                   (sequences ld) (annotations ld)"
    for ar augment split w w'
    using init_clip_sample_aligned [OF conjunct1 [OF h] conjunct2 [OF h] assms(1)] assms(2)
    by auto
  from r p show ?thesis by blast
qed

text \<open>
  C2 as stated fails in two ways. With \<open>use_prev_mask\<close> true a sequence has one sequence
  clip but \<open>max 1 (num_frames div L)\<close> annotation clips, so on the small dataset index 1
  pairs the clip of \<open>b\<close> with the second annotation clip of \<open>a\<close>. With \<open>use_prev_mask\<close> false
  and two masks for the four frames of \<open>a\<close>, index 1 pairs the second clip of \<open>a\<close> with
  the first annotation clip of \<open>b\<close>.
\<close>

theorem C2_counterexample:
  "\<not> isl (fst (DAVISLoader_init ex_args False (VStr ''train'') True ex_world))
   \<and> map_sum id clip_ids (fst (get_raw_sample_clip (KInt 1) ex_prev_mask_loader))
       = Inr ((''b'', 0), (''a'', 2))
   \<and> \<not> isl (fst (DAVISLoader_init ex_args False (VStr ''train'') False ex_world_two_masks))
   \<and> map_sum id clip_ids (fst (get_raw_sample_clip (KInt 1) ex_two_masks_loader))
       = Inr ((''a'', 2), (''b'', 0))"
  unfolding ex_prev_mask_loader_def ex_two_masks_loader_def by code_simp

text \<open>The training loader of the small dataset and the key \<open>1\<close> satisfy the hypotheses.\<close>

theorem C2_witness:
  "py_index (sequence_clips ex_train_loader) 1 = Inr (sequence_clips ex_train_loader ! 1)
   \<and> py_index (annotation_clips ex_train_loader) 1 = Inr (annotation_clips ex_train_loader ! 1)
   \<and> DAVISLoader_init ex_args False (VStr ''train'') False ex_world = (Inr ex_train_loader, ex_train_world)
   \<and> list_all2 (\<lambda>s a. map basename (seq_files s) = map basename (ann_files a)
                               \<and> seq_numframes s = ann_numframes a)
         (sequences ex_train_loader) (annotations ex_train_loader)
   \<and> fst (get_raw_sample_clip (KInt 1) ex_train_loader)
       = Inr \<lparr>clip_images = sequence_clips ex_train_loader ! 1,
              clip_annotations = annotation_clips ex_train_loader ! 1\<rparr>
   \<and> ac_name (annotation_clips ex_train_loader ! 1) = sc_name (sequence_clips ex_train_loader ! 1)
   \<and> ac_starting_frame (annotation_clips ex_train_loader ! 1)
       = sc_starting_frame (sequence_clips ex_train_loader ! 1)"
proof -
  have s: "list_all2 (\<lambda>s a. map basename (seq_files s) = map basename (ann_files a)
                               \<and> seq_numframes s = ann_numframes a)
         (sequences ex_train_loader) (annotations ex_train_loader)"
    unfolding ex_train_loader_def by code_simp
  have "length (sequence_clips ex_train_loader) = 4"
    unfolding ex_train_loader_def by code_simp
  then have i: "py_index (sequence_clips ex_train_loader) 1 = Inr (sequence_clips ex_train_loader ! 1)"
    by (simp add: py_index_def)
  have "length (annotation_clips ex_train_loader) = 4"
    unfolding ex_train_loader_def by code_simp
  then have j: "py_index (annotation_clips ex_train_loader) 1
      = Inr (annotation_clips ex_train_loader ! 1)"
    by (simp add: py_index_def)
  from C2_clip_sample_pairs [OF i j] ex_train_init s i j show ?thesis by blast
qed

section \<open>What \<open>db_read_sequences\<close> yields\<close>

lemma drain_filter:
  assumes "list_all (\<lambda>s. \<exists>b. holds_all v ps s = Inr b) xs"
  shows "drain v ps xs = (filter (\<lambda>s. holds_all v ps s = Inr True) xs, None)"
  using assms by (induction xs) auto

lemma holds_year:
  assumes "is_int y" and "is_int (ds_year s)"
  shows "holds v (YearLE y) s = Inr (year_le s y)"
  using assms by (auto simp: is_int_def year_le_def split: sum.splits)

text \<open>
  C3. For a year \<open>y\<close> and a \<open>db_phase\<close> other than \<open>None\<close>, where \<open>int\<close> converts \<open>y\<close> and
  the year of every entry of the db-info file, \<open>db_read_sequences(y, db_phase)\<close> returns
  an iterable that yields, in the order of the file and without raising, exactly the
  entries \<open>s\<close> with \<open>int(s.year) <= int(y)\<close> and, when \<open>db_phase\<close> is \<open>phase.TRAINVAL\<close>,
  with \<open>s.set\<close> equal to \<open>phase.VAL\<close> or \<open>phase.TRAIN\<close>, without a look at the
  directories; otherwise with \<open>s.set == db_phase\<close> and the directory
  \<open>cfg.PATH.SEQUENCES/s.name\<close> existing. The directory test is made in the world \<open>v\<close> in
  which the iterable is consumed.
\<close>

theorem C3_db_read_sequences_yields:
  assumes "db_read_info w = Inr info" and "db_phase \<noteq> VNone"
    and "is_int y" and "list_all (\<lambda>s. is_int (ds_year s)) info"
  shows "\<exists>it. db_read_sequences (Some y) db_phase w = Inr it
          \<and> iterate v it =
              (filter (\<lambda>s. year_le s y
                          \<and> (if db_phase = VPhase TRAINVAL
                              then ds_set s = VPhase VAL \<or> ds_set s = VPhase TRAIN
                              else ds_set s = db_phase
                                   \<and> fs_isdir v (join (PATH_SEQUENCES (PATH (cfg v))) (ds_name s))))
                 info, None)"
proof -
  let ?p = "if db_phase = VPhase TRAINVAL then SetTrainVal else SetEqIsdir db_phase"
  let ?ps = "[YearLE y, ?p]"
  have it: "db_read_sequences (Some y) db_phase w = Inr (PyFilter ?ps info)"
    using assms(1,2) by (simp add: db_read_sequences_def)
  have h: "holds_all v ?ps s =
      Inr (year_le s y \<and> (if db_phase = VPhase TRAINVAL
                              then ds_set s = VPhase VAL \<or> ds_set s = VPhase TRAIN
                              else ds_set s = db_phase
                                   \<and> fs_isdir v (join (PATH_SEQUENCES (PATH (cfg v))) (ds_name s))))"
    if "is_int (ds_year s)" for s
    using holds_year [OF assms(3) that, of v] by simp
  have all: "list_all (\<lambda>s. \<exists>b. holds_all v ?ps s = Inr b) info"
    using assms(4) h by (simp add: list_all_iff)
  have "filter (\<lambda>s. holds_all v ?ps s = Inr True) info =
      filter (\<lambda>s. year_le s y \<and> (if db_phase = VPhase TRAINVAL
                              then ds_set s = VPhase VAL \<or> ds_set s = VPhase TRAIN
                              else ds_set s = db_phase
                                   \<and> fs_isdir v (join (PATH_SEQUENCES (PATH (cfg v))) (ds_name s))))
        info"
    using assms(4) h by (intro filter_cong refl) (simp add: list_all_iff)
  with drain_filter [OF all] it show ?thesis by simp
qed

text \<open>
  On the small dataset, year \<open>'2016'\<close> and the set \<open>'train'\<close> give the one entry \<open>a\<close>.
\<close>

theorem C3_witness:
  "db_read_info ex_world = Inr ex_info \<and> VStr ''train'' \<noteq> VNone
   \<and> is_int (SStr ''2016'') \<and> list_all (\<lambda>s. is_int (ds_year s)) ex_info
   \<and> (\<exists>it. db_read_sequences (Some (SStr ''2016'')) (VStr ''train'') ex_world = Inr it
          \<and> iterate ex_train_world it =
              (filter (\<lambda>s. year_le s (SStr ''2016'')
                          \<and> (if VStr ''train'' = VPhase TRAINVAL
                              then ds_set s = VPhase VAL \<or> ds_set s = VPhase TRAIN
                              else ds_set s = VStr ''train''
                                   \<and> fs_isdir ex_train_world
                                        (join (PATH_SEQUENCES (PATH (cfg ex_train_world))) (ds_name s))))
                 ex_info, None))
   \<and> filter (\<lambda>s. year_le s (SStr ''2016'')
                \<and> ds_set s = VStr ''train''
                \<and> fs_isdir ex_train_world
                     (join (PATH_SEQUENCES (PATH (cfg ex_train_world))) (ds_name s))) ex_info
      = [\<lparr>ds_name = ''a'', ds_year = SInt 2016, ds_set = VStr ''train''\<rparr>]"
proof -
  have a: "db_read_info ex_world = Inr ex_info"
    by (simp add: db_read_info_def ex_world_def ex_cfg_def)
  have b: "VStr ''train'' \<noteq> VNone" by simp
  have c: "is_int (SStr ''2016'')" by code_simp
  have d: "list_all (\<lambda>s. is_int (ds_year s)) ex_info"
    by (simp add: ex_info_def is_int_def)
  have e: "filter (\<lambda>s. year_le s (SStr ''2016'')
                \<and> ds_set s = VStr ''train''
                \<and> fs_isdir ex_train_world
                     (join (PATH_SEQUENCES (PATH (cfg ex_train_world))) (ds_name s))) ex_info
      = [\<lparr>ds_name = ''a'', ds_year = SInt 2016, ds_set = VStr ''train''\<rparr>]"
    unfolding ex_train_world_def by code_simp
  from C3_db_read_sequences_yields [OF a b c d, of ex_train_world] a b c d e
  show ?thesis by blast
qed

section \<open>\<open>parse_args\<close> and \<open>train\<close>\<close>
















lemma prepare_logger_fast:
  "ns_fast_dev_run ar \<Longrightarrow> prepare_logger cwd new_id ar fs = (Inr (None, None), fs)"
  by (simp add: prepare_logger_def)

text \<open>
  C6. When \<open>train\<close> constructs the \<open>Trainer\<close>: with \<open>fast_dev_run\<close> false, checkpointing is
  enabled and the callbacks contain a \<open>ModelCheckpoint\<close> that monitors \<open>val_f1\<close> in mode
  \<open>max\<close>, keeps the top 2 and saves the last; with \<open>fast_dev_run\<close> true the callback list
  is empty, checkpointing is disabled, \<open>prepare_logger\<close> returns \<open>(None, None)\<close> and the
  \<open>Trainer\<close> has no logger.
\<close>

theorem C6_trainer_checkpointing:
  assumes "train mk_model cwd new_id ar fs = (Inr t, fs')"
  shows "if ns_fast_dev_run ar
         then t_callbacks t = [] \<and> \<not> t_enable_checkpointing t
              \<and> prepare_logger cwd new_id ar fs = (Inr (None, None), fs) \<and> t_logger t = None
         else t_enable_checkpointing t
              \<and> (\<exists>mc. ModelCheckpoint mc \<in> set (t_callbacks t) \<and> monitor mc = ''val_f1''
                     \<and> mode mc = ''max'' \<and> save_top_k mc = 2 \<and> save_last mc)"
proof (cases "ns_fast_dev_run ar")
  case True
  with assms prepare_logger_fast [OF True, of cwd new_id fs] show ?thesis
    by (auto simp: train_def Let_def split: sum.splits option.splits)
next
  case False
  with assms show ?thesis
    by (auto simp: train_def Let_def split: sum.splits option.splits prod.splits)
qed

text \<open>
  \<open>train\<close> on the parsed namespace of \<open>-c cfg.yaml\<close>, without and with \<open>fast_dev_run\<close>,
  for a \<open>prepare_model\<close> that returns.
\<close>

theorem C6_witness:
  "train (\<lambda>a. Inr ()) ''/work'' ''id0'' (ex_ns\<lparr>ns_max_epochs := Some (ex_heap, YInt 30)\<rparr>) ex_fs
     = (Inr \<lparr>t_accelerator = ''auto'', t_devices = DevAuto, t_max_epochs = (ex_heap, YInt 30),
             t_logger = Some (TensorBoardLogger ''/work'' ''version_0''
                                (Some ''lightning_logs/vidnet'') True),
             t_callbacks =
               [ModelSummary (- 1), TQDMProgressBar 1,
                ModelCheckpoint
                  \<lparr>dirpath = ''lightning_logs/vidnet/version_0/checkpoints'', monitor = ''val_f1'',
                   filename = ''{epoch:02d}-{val_f1:.4f}-{val_jaccard:.4f}'',
                   verbose = True, save_last = True, save_top_k = 2, mode = ''max''\<rparr>,
                LearningRateMonitor ''step''],
             t_fast_dev_run = False, t_enable_checkpointing = True,
             t_log_every_n_steps = 10\<rparr>, ex_fs)
   \<and> train (\<lambda>a. Inr ()) ''/work'' ''id0''
        (ex_ns\<lparr>ns_fast_dev_run := True, ns_max_epochs := Some (ex_heap, YInt 30)\<rparr>) ex_fs
     = (Inr \<lparr>t_accelerator = ''auto'', t_devices = DevInt 1, t_max_epochs = (ex_heap, YInt 30),
             t_logger = None, t_callbacks = [],
             t_fast_dev_run = True, t_enable_checkpointing = False,
             t_log_every_n_steps = 10\<rparr>, ex_fs)
   \<and> prepare_logger ''/work'' ''id0''
        (ex_ns\<lparr>ns_fast_dev_run := True, ns_max_epochs := Some (ex_heap, YInt 30)\<rparr>) ex_fs
     = (Inr (None, None), ex_fs)"
proof -
  have a: "train (\<lambda>a. Inr ()) ''/work'' ''id0'' (ex_ns\<lparr>ns_max_epochs := Some (ex_heap, YInt 30)\<rparr>) ex_fs
     = (Inr \<lparr>t_accelerator = ''auto'', t_devices = DevAuto, t_max_epochs = (ex_heap, YInt 30),
             t_logger = Some (TensorBoardLogger ''/work'' ''version_0''
                                (Some ''lightning_logs/vidnet'') True),
             t_callbacks =
               [ModelSummary (- 1), TQDMProgressBar 1,
                ModelCheckpoint
                  \<lparr>dirpath = ''lightning_logs/vidnet/version_0/checkpoints'', monitor = ''val_f1'',
                   filename = ''{epoch:02d}-{val_f1:.4f}-{val_jaccard:.4f}'',
                   verbose = True, save_last = True, save_top_k = 2, mode = ''max''\<rparr>,
                LearningRateMonitor ''step''],
             t_fast_dev_run = False, t_enable_checkpointing = True,
             t_log_every_n_steps = 10\<rparr>, ex_fs)"
    by (simp add: train_def prepare_logger_def ex_ns_def Let_def)
  have b: "train (\<lambda>a. Inr ()) ''/work'' ''id0''
        (ex_ns\<lparr>ns_fast_dev_run := True, ns_max_epochs := Some (ex_heap, YInt 30)\<rparr>) ex_fs
     = (Inr \<lparr>t_accelerator = ''auto'', t_devices = DevInt 1, t_max_epochs = (ex_heap, YInt 30),
             t_logger = None, t_callbacks = [],
             t_fast_dev_run = True, t_enable_checkpointing = False,
             t_log_every_n_steps = 10\<rparr>, ex_fs)"
    by (simp add: train_def prepare_logger_def ex_ns_def Let_def)
  from C6_trainer_checkpointing [OF a] C6_trainer_checkpointing [OF b] a b
  show ?thesis by (simp add: ex_ns_def)
qed

end
